theory Spec2Isabelle
  imports Complex_Main
begin

section \<open>Fixed-step ODE integrators of \<open>stronzos.ipynb\<close>\<close>

text \<open>
  The notebook defines seven solvers. Each one keeps two (Verlet: three) Python lists
  and the current values \<open>y\<close> (and \<open>v\<close>) and \<open>t\<close>, runs \<open>for _ in range(n)\<close>, and
  returns the lists.

  Arithmetic in the seven solvers is exact: times and step sizes are \<open>real\<close>, and a
  state is a value of any real vector space \<open>'a\<close> (\<open>real\<close> itself for the scalar
  solvers, a fixed-shape array for the system solvers). Python's \<open>c * x\<close> and
  \<open>x * c\<close> with a number \<open>c\<close> and a state \<open>x\<close> are both \<open>c *\<^sub>R x\<close>, and
  \<open>x / c\<close> is \<open>x /\<^sub>R c\<close>. Rounding matters to one statement about the times, so
  the last part of the definitions gives binary64 addition, subtraction and
  multiplication and the Euler solver over them. Arrays whose shape changes by
  broadcasting are outside the model: the callable returns a value of the state's own
  type. States are values: no statement of a solver updates an array in place, and the
  callable is taken not to write into the arrays it is handed.

  The callable \<open>f\<close> is the caller's: it may raise, and it may have effects of its
  own. A call takes the caller's state \<open>'s\<close> and either raises (\<open>None\<close>) or returns
  its value and the caller's new state. A solver never catches, so the first call that
  raises ends the run with \<open>None\<close>.
\<close>

type_synonym ('s, 'r) call = "'s \<Rightarrow> ('r \<times> 's) option"

definition unit_call :: "'r \<Rightarrow> ('s, 'r) call" where
  "unit_call x = (\<lambda>s. Some (x, s))"

definition bind_call :: "('s, 'q) call \<Rightarrow> ('q \<Rightarrow> ('s, 'r) call) \<Rightarrow> ('s, 'r) call" where
  "bind_call m k = (\<lambda>s. case m s of None \<Rightarrow> None | Some (x, s') \<Rightarrow> k x s')"

text \<open>
  \<open>for _ in range(n): body\<close>. \<open>range(n)\<close> has \<open>n\<close> elements for a positive \<open>n\<close>
  and none otherwise, which is \<open>nat n\<close>.
\<close>

primrec repeat :: "nat \<Rightarrow> ('st \<Rightarrow> ('s, 'st) call) \<Rightarrow> 'st \<Rightarrow> ('s, 'st) call" where
  "repeat 0 body st = unit_call st"
| "repeat (Suc k) body st = bind_call (body st) (repeat k body)"

definition for_range :: "int \<Rightarrow> ('st \<Rightarrow> ('s, 'st) call) \<Rightarrow> 'st \<Rightarrow> ('s, 'st) call" where
  "for_range n body st = repeat (nat n) body st"

subsection \<open>The first-order solvers\<close>

text \<open>The loop state is \<open>(t_values, y_values, y, t)\<close>.\<close>

type_synonym 'a ode_state = "real list \<times> 'a list \<times> 'a \<times> real"

type_synonym ('s, 'a) deriv = "real \<Rightarrow> 'a \<Rightarrow> ('s, 'a) call"

definition euler_body ::
  "('s, 'a::real_vector) deriv \<Rightarrow> real \<Rightarrow> 'a ode_state \<Rightarrow> ('s, 'a ode_state) call" where
  "euler_body f h = (\<lambda>(t_values, y_values, y, t).
     bind_call (f t y) (\<lambda>d.
       let y' = y + h *\<^sub>R d;
           t' = t + h
       in unit_call (t_values @ [t'], y_values @ [y'], y', t')))"

definition euler_method ::
  "('s, 'a::real_vector) deriv \<Rightarrow> 'a \<Rightarrow> real \<Rightarrow> real \<Rightarrow> int \<Rightarrow> ('s, real list \<times> 'a list) call" where
  "euler_method f y0 t0 h n =
     bind_call (for_range n (euler_body f h) ([t0], [y0], y0, t0))
       (\<lambda>(t_values, y_values, y, t). unit_call (t_values, y_values))"

text \<open>
  Heun calls \<open>f(t, y)\<close> for the predictor and again inside the corrector, before
  \<open>f(t + h, y_predictor)\<close> (Python evaluates the operands of \<open>+\<close> left to right).
\<close>

definition heun_body ::
  "('s, 'a::real_vector) deriv \<Rightarrow> real \<Rightarrow> 'a ode_state \<Rightarrow> ('s, 'a ode_state) call" where
  "heun_body f h = (\<lambda>(t_values, y_values, y, t).
     bind_call (f t y) (\<lambda>d0.
       let y_predictor = y + h *\<^sub>R d0 in
       bind_call (f t y) (\<lambda>d1.
       bind_call (f (t + h) y_predictor) (\<lambda>d2.
         let y' = y + (h / 2) *\<^sub>R (d1 + d2);
             t' = t + h
         in unit_call (t_values @ [t'], y_values @ [y'], y', t')))))"

definition heun_method ::
  "('s, 'a::real_vector) deriv \<Rightarrow> 'a \<Rightarrow> real \<Rightarrow> real \<Rightarrow> int \<Rightarrow> ('s, real list \<times> 'a list) call" where
  "heun_method f y0 t0 h n =
     bind_call (for_range n (heun_body f h) ([t0], [y0], y0, t0))
       (\<lambda>(t_values, y_values, y, t). unit_call (t_values, y_values))"

text \<open>
  The scalar Runge-Kutta routine keeps the raw slopes \<open>k1 .. k4\<close> and multiplies by
  \<open>h\<close> where they are used: \<open>y + k1*h / 2\<close> is \<open>y + ((k1*h) / 2)\<close> and the
  combination is \<open>((k1 + 2*k2 + 2*k3 + k4) * h) / 6\<close>.
\<close>

definition runge_kutta_body ::
  "('s, 'a::real_vector) deriv \<Rightarrow> real \<Rightarrow> 'a ode_state \<Rightarrow> ('s, 'a ode_state) call" where
  "runge_kutta_body f h = (\<lambda>(t_values, y_values, y, t).
     bind_call (f t y) (\<lambda>k1.
     bind_call (f (t + h / 2) (y + (h *\<^sub>R k1) /\<^sub>R 2)) (\<lambda>k2.
     bind_call (f (t + h / 2) (y + (h *\<^sub>R k2) /\<^sub>R 2)) (\<lambda>k3.
     bind_call (f (t + h) (y + h *\<^sub>R k3)) (\<lambda>k4.
       let y' = y + (h *\<^sub>R (k1 + 2 *\<^sub>R k2 + 2 *\<^sub>R k3 + k4)) /\<^sub>R 6;
           t' = t + h
       in unit_call (t_values @ [t'], y_values @ [y'], y', t'))))))"

definition runge_kutta_method ::
  "('s, 'a::real_vector) deriv \<Rightarrow> 'a \<Rightarrow> real \<Rightarrow> real \<Rightarrow> int \<Rightarrow> ('s, real list \<times> 'a list) call" where
  "runge_kutta_method f y0 t0 h n =
     bind_call (for_range n (runge_kutta_body f h) ([t0], [y0], y0, t0))
       (\<lambda>(t_values, y_values, y, t). unit_call (t_values, y_values))"

definition midpoint_body ::
  "('s, 'a::real_vector) deriv \<Rightarrow> real \<Rightarrow> 'a ode_state \<Rightarrow> ('s, 'a ode_state) call" where
  "midpoint_body f h = (\<lambda>(t_values, y_values, y, t).
     bind_call (f t y) (\<lambda>d1.
       let k1 = h *\<^sub>R d1 in
       bind_call (f (t + h / 2) (y + k1 /\<^sub>R 2)) (\<lambda>d2.
         let k2 = h *\<^sub>R d2;
             y' = y + k2;
             t' = t + h
         in unit_call (t_values @ [t'], y_values @ [y'], y', t'))))"

definition midpoint_method ::
  "('s, 'a::real_vector) deriv \<Rightarrow> 'a \<Rightarrow> real \<Rightarrow> real \<Rightarrow> int \<Rightarrow> ('s, real list \<times> 'a list) call" where
  "midpoint_method f y0 t0 h n =
     bind_call (for_range n (midpoint_body f h) ([t0], [y0], y0, t0))
       (\<lambda>(t_values, y_values, y, t). unit_call (t_values, y_values))"

definition euler_system_body ::
  "('s, 'a::real_vector) deriv \<Rightarrow> real \<Rightarrow> 'a ode_state \<Rightarrow> ('s, 'a ode_state) call" where
  "euler_system_body f h = (\<lambda>(t_values, y_values, y, t).
     bind_call (f t y) (\<lambda>d.
       let y' = y + h *\<^sub>R d;
           t' = t + h
       in unit_call (t_values @ [t'], y_values @ [y'], y', t')))"

definition euler_method_system ::
  "('s, 'a::real_vector) deriv \<Rightarrow> 'a \<Rightarrow> real \<Rightarrow> real \<Rightarrow> int \<Rightarrow> ('s, real list \<times> 'a list) call" where
  "euler_method_system f y0 t0 h n =
     bind_call (for_range n (euler_system_body f h) ([t0], [y0], y0, t0))
       (\<lambda>(t_values, y_values, y, t). unit_call (t_values, y_values))"

text \<open>The system Runge-Kutta routine scales each slope by \<open>h\<close> as it is computed.\<close>

definition runge_kutta_system_body ::
  "('s, 'a::real_vector) deriv \<Rightarrow> real \<Rightarrow> 'a ode_state \<Rightarrow> ('s, 'a ode_state) call" where
  "runge_kutta_system_body f h = (\<lambda>(t_values, y_values, y, t).
     bind_call (f t y) (\<lambda>d1.
       let k1 = h *\<^sub>R d1 in
       bind_call (f (t + h / 2) (y + k1 /\<^sub>R 2)) (\<lambda>d2.
         let k2 = h *\<^sub>R d2 in
         bind_call (f (t + h / 2) (y + k2 /\<^sub>R 2)) (\<lambda>d3.
           let k3 = h *\<^sub>R d3 in
           bind_call (f (t + h) (y + k3)) (\<lambda>d4.
             let k4 = h *\<^sub>R d4;
                 y' = y + (k1 + 2 *\<^sub>R k2 + 2 *\<^sub>R k3 + k4) /\<^sub>R 6;
                 t' = t + h
             in unit_call (t_values @ [t'], y_values @ [y'], y', t'))))))"

definition runge_kutta_method_system ::
  "('s, 'a::real_vector) deriv \<Rightarrow> 'a \<Rightarrow> real \<Rightarrow> real \<Rightarrow> int \<Rightarrow> ('s, real list \<times> 'a list) call" where
  "runge_kutta_method_system f y0 t0 h n =
     bind_call (for_range n (runge_kutta_system_body f h) ([t0], [y0], y0, t0))
       (\<lambda>(t_values, y_values, y, t). unit_call (t_values, y_values))"

subsection \<open>The Verlet solver\<close>

text \<open>
  The loop state is \<open>(t_values, y_values, v_values, y, v, t)\<close>. One iteration calls
  the acceleration three times, in this order: \<open>f(t, y, v)\<close> for \<open>y_next\<close>,
  \<open>f(t + h, y_next, v)\<close> for \<open>a_next\<close>, and \<open>f(t, y, v)\<close> again for \<open>v_next\<close>.
  \<open>0.5 * h**2 * a\<close> is \<open>(0.5 * h\<^sup>2) * a\<close> and \<open>0.5 * h * b\<close> is \<open>(0.5 * h) * b\<close>.
  \<open>t0\<close> is a Python float, so \<open>t += h\<close> rebinds \<open>t\<close> and leaves the list alone.
\<close>

type_synonym 'a verlet_state = "real list \<times> 'a list \<times> 'a list \<times> 'a \<times> 'a \<times> real"

type_synonym ('s, 'a) accel = "real \<Rightarrow> 'a \<Rightarrow> 'a \<Rightarrow> ('s, 'a) call"

definition verlet_body ::
  "('s, 'a::real_vector) accel \<Rightarrow> real \<Rightarrow> 'a verlet_state \<Rightarrow> ('s, 'a verlet_state) call" where
  "verlet_body f h = (\<lambda>(t_values, y_values, v_values, y, v, t).
     bind_call (f t y v) (\<lambda>a0.
       let y_next = y + h *\<^sub>R v + (0.5 * h\<^sup>2) *\<^sub>R a0 in
       bind_call (f (t + h) y_next v) (\<lambda>a_next.
       bind_call (f t y v) (\<lambda>a1.
         let v_next = v + (0.5 * h) *\<^sub>R (a1 + a_next);
             t' = t + h
         in unit_call (t_values @ [t'], y_values @ [y_next], v_values @ [v_next],
              y_next, v_next, t')))))"

definition verlet_method_system ::
  "('s, 'a::real_vector) accel \<Rightarrow> 'a \<Rightarrow> 'a \<Rightarrow> real \<Rightarrow> real \<Rightarrow> int
     \<Rightarrow> ('s, real list \<times> 'a list \<times> 'a list) call" where
  "verlet_method_system f y0 v0 t0 h n =
     bind_call (for_range n (verlet_body f h) ([t0], [y0], [v0], y0, v0, t0))
       (\<lambda>(t_values, y_values, v_values, y, v, t). unit_call (t_values, y_values, v_values))"

subsection \<open>Callables used to observe a run\<close>

text \<open>
  A pure callable computes \<open>g\<close> and leaves the caller's state alone. A counted callable
  computes \<open>g\<close> and adds one to a counter it keeps in the caller's state, so the
  counter after a run is the number of calls the solver made.
\<close>

definition pure_call :: "(real \<Rightarrow> 'a \<Rightarrow> 'a) \<Rightarrow> ('s, 'a) deriv" where
  "pure_call g t y = unit_call (g t y)"

definition counted :: "(real \<Rightarrow> 'a \<Rightarrow> 'a) \<Rightarrow> (nat, 'a) deriv" where
  "counted g t y = (\<lambda>c. Some (g t y, Suc c))"

definition pure_accel :: "(real \<Rightarrow> 'a \<Rightarrow> 'a \<Rightarrow> 'a) \<Rightarrow> ('s, 'a) accel" where
  "pure_accel g t y v = unit_call (g t y v)"

definition counted_accel :: "(real \<Rightarrow> 'a \<Rightarrow> 'a \<Rightarrow> 'a) \<Rightarrow> (nat, 'a) accel" where
  "counted_accel g t y v = (\<lambda>c. Some (g t y v, Suc c))"

text \<open>
  A logged callable appends the point of each call to a log kept in the caller's state.
  Its value may depend on how many calls came before, so that the value of one call can
  be told from the value of another call at the same point.
\<close>

definition logged :: "(nat \<Rightarrow> real \<Rightarrow> 'a \<Rightarrow> 'a) \<Rightarrow> ((real \<times> 'a) list, 'a) deriv" where
  "logged g t y = (\<lambda>calls. Some (g (length calls) t y, calls @ [(t, y)]))"

definition raising :: "('s, 'a) deriv" where
  "raising t y = (\<lambda>s. None)"

definition raising_accel :: "('s, 'a) accel" where
  "raising_accel t y v = (\<lambda>s. None)"

text \<open>The derivative functions of the test cases: \<open>f(t, y) = y\<close> and \<open>f(t, y) = 0\<close>.\<close>

definition growth :: "real \<Rightarrow> 'a \<Rightarrow> 'a" where
  "growth t y = y"

definition zero_deriv :: "real \<Rightarrow> 'a \<Rightarrow> 'a::zero" where
  "zero_deriv t y = 0"

definition const_accel :: "'a \<Rightarrow> real \<Rightarrow> 'a \<Rightarrow> 'a \<Rightarrow> 'a" where
  "const_accel g t y v = g"

subsection \<open>Selecting a solver\<close>

text \<open>
  The six first-order solvers share one signature. \<open>solve m\<close> is the solver named
  \<open>m\<close> and \<open>loop_body m\<close> the body of its loop, so that a statement about every
  method is a statement about every \<open>m\<close>.
\<close>

datatype solver = Euler | Heun | Runge_Kutta | Midpoint | Euler_System | Runge_Kutta_System

fun solve :: "solver \<Rightarrow> ('s, 'a::real_vector) deriv \<Rightarrow> 'a \<Rightarrow> real \<Rightarrow> real \<Rightarrow> int \<Rightarrow> ('s, real list \<times> 'a list) call" where
  "solve Euler = euler_method"
| "solve Heun = heun_method"
| "solve Runge_Kutta = runge_kutta_method"
| "solve Midpoint = midpoint_method"
| "solve Euler_System = euler_method_system"
| "solve Runge_Kutta_System = runge_kutta_method_system"

fun loop_body :: "solver \<Rightarrow> ('s, 'a::real_vector) deriv \<Rightarrow> real \<Rightarrow> 'a ode_state \<Rightarrow> ('s, 'a ode_state) call" where
  "loop_body Euler = euler_body"
| "loop_body Heun = heun_body"
| "loop_body Runge_Kutta = runge_kutta_body"
| "loop_body Midpoint = midpoint_body"
| "loop_body Euler_System = euler_system_body"
| "loop_body Runge_Kutta_System = runge_kutta_system_body"

subsection \<open>The common shape of the loops\<close>

text \<open>
  Every first-order loop body computes the next state from \<open>(t, y)\<close> and then does
  the same bookkeeping: \<open>t = t + h\<close> and the two appends. \<open>step_body upd h\<close> is that
  bookkeeping around an update \<open>upd\<close>, and \<open>update_of m f h\<close> is the update of solver
  \<open>m\<close> with its local definitions unfolded. They are used in the proofs only; lemmas
  \<open>loop_body_step\<close> and \<open>verlet_body_step\<close> relate them to the bodies above.
\<close>

definition step_body ::
  "(real \<Rightarrow> 'a \<Rightarrow> ('s, 'a) call) \<Rightarrow> real \<Rightarrow> 'a ode_state \<Rightarrow> ('s, 'a ode_state) call" where
  "step_body upd h = (\<lambda>(tv, yv, y, t).
     bind_call (upd t y) (\<lambda>y'. unit_call (tv @ [t + h], yv @ [y'], y', t + h)))"

definition step_method ::
  "(real \<Rightarrow> 'a \<Rightarrow> ('s, 'a) call) \<Rightarrow> 'a \<Rightarrow> real \<Rightarrow> real \<Rightarrow> int \<Rightarrow> ('s, real list \<times> 'a list) call" where
  "step_method upd y0 t0 h n =
     bind_call (for_range n (step_body upd h) ([t0], [y0], y0, t0))
       (\<lambda>(tv, yv, y, t). unit_call (tv, yv))"

definition euler_update :: "('s, 'a::real_vector) deriv \<Rightarrow> real \<Rightarrow> real \<Rightarrow> 'a \<Rightarrow> ('s, 'a) call" where
  "euler_update f h t y = bind_call (f t y) (\<lambda>d. unit_call (y + h *\<^sub>R d))"

definition heun_update :: "('s, 'a::real_vector) deriv \<Rightarrow> real \<Rightarrow> real \<Rightarrow> 'a \<Rightarrow> ('s, 'a) call" where
  "heun_update f h t y =
     bind_call (f t y) (\<lambda>d0.
     bind_call (f t y) (\<lambda>d1.
     bind_call (f (t + h) (y + h *\<^sub>R d0)) (\<lambda>d2.
       unit_call (y + (h / 2) *\<^sub>R (d1 + d2)))))"

definition runge_kutta_update :: "('s, 'a::real_vector) deriv \<Rightarrow> real \<Rightarrow> real \<Rightarrow> 'a \<Rightarrow> ('s, 'a) call" where
  "runge_kutta_update f h t y =
     bind_call (f t y) (\<lambda>k1.
     bind_call (f (t + h / 2) (y + (h *\<^sub>R k1) /\<^sub>R 2)) (\<lambda>k2.
     bind_call (f (t + h / 2) (y + (h *\<^sub>R k2) /\<^sub>R 2)) (\<lambda>k3.
     bind_call (f (t + h) (y + h *\<^sub>R k3)) (\<lambda>k4.
       unit_call (y + (h *\<^sub>R (k1 + 2 *\<^sub>R k2 + 2 *\<^sub>R k3 + k4)) /\<^sub>R 6)))))"

definition midpoint_update :: "('s, 'a::real_vector) deriv \<Rightarrow> real \<Rightarrow> real \<Rightarrow> 'a \<Rightarrow> ('s, 'a) call" where
  "midpoint_update f h t y =
     bind_call (f t y) (\<lambda>d1.
     bind_call (f (t + h / 2) (y + (h *\<^sub>R d1) /\<^sub>R 2)) (\<lambda>d2.
       unit_call (y + h *\<^sub>R d2)))"

definition runge_kutta_system_update :: "('s, 'a::real_vector) deriv \<Rightarrow> real \<Rightarrow> real \<Rightarrow> 'a \<Rightarrow> ('s, 'a) call" where
  "runge_kutta_system_update f h t y =
     bind_call (f t y) (\<lambda>d1.
     bind_call (f (t + h / 2) (y + (h *\<^sub>R d1) /\<^sub>R 2)) (\<lambda>d2.
     bind_call (f (t + h / 2) (y + (h *\<^sub>R d2) /\<^sub>R 2)) (\<lambda>d3.
     bind_call (f (t + h) (y + h *\<^sub>R d3)) (\<lambda>d4.
       unit_call (y + (h *\<^sub>R d1 + 2 *\<^sub>R (h *\<^sub>R d2) + 2 *\<^sub>R (h *\<^sub>R d3) + h *\<^sub>R d4) /\<^sub>R 6)))))"

fun update_of :: "solver \<Rightarrow> ('s, 'a::real_vector) deriv \<Rightarrow> real \<Rightarrow> real \<Rightarrow> 'a \<Rightarrow> ('s, 'a) call" where
  "update_of Euler = euler_update"
| "update_of Heun = heun_update"
| "update_of Runge_Kutta = runge_kutta_update"
| "update_of Midpoint = midpoint_update"
| "update_of Euler_System = euler_update"
| "update_of Runge_Kutta_System = runge_kutta_system_update"

definition verlet_update ::
  "('s, 'a::real_vector) accel \<Rightarrow> real \<Rightarrow> real \<Rightarrow> 'a \<Rightarrow> 'a \<Rightarrow> ('s, 'a \<times> 'a) call" where
  "verlet_update f h t y v =
     bind_call (f t y v) (\<lambda>a0.
     bind_call (f (t + h) (y + h *\<^sub>R v + (0.5 * h\<^sup>2) *\<^sub>R a0) v) (\<lambda>a_next.
     bind_call (f t y v) (\<lambda>a1.
       unit_call (y + h *\<^sub>R v + (0.5 * h\<^sup>2) *\<^sub>R a0, v + (0.5 * h) *\<^sub>R (a1 + a_next)))))"

definition verlet_step_body ::
  "(real \<Rightarrow> 'a \<Rightarrow> 'a \<Rightarrow> ('s, 'a \<times> 'a) call) \<Rightarrow> real \<Rightarrow> 'a verlet_state \<Rightarrow> ('s, 'a verlet_state) call" where
  "verlet_step_body upd h = (\<lambda>(tv, yv, vv, y, v, t).
     bind_call (upd t y v) (\<lambda>(y', v').
       unit_call (tv @ [t + h], yv @ [y'], vv @ [v'], y', v', t + h)))"

definition verlet_step_method ::
  "(real \<Rightarrow> 'a \<Rightarrow> 'a \<Rightarrow> ('s, 'a \<times> 'a) call) \<Rightarrow> 'a \<Rightarrow> 'a \<Rightarrow> real \<Rightarrow> real \<Rightarrow> int
     \<Rightarrow> ('s, real list \<times> 'a list \<times> 'a list) call" where
  "verlet_step_method upd y0 v0 t0 h n =
     bind_call (for_range n (verlet_step_body upd h) ([t0], [y0], [v0], y0, v0, t0))
       (\<lambda>(tv, yv, vv, y, v, t). unit_call (tv, yv, vv))"

subsection \<open>The Euler solver in binary64 arithmetic\<close>

text \<open>
  Python's \<open>float\<close> is an IEEE 754 binary64 number. A finite one is \<open>m * 2\<^sup>e\<close> for
  integers \<open>m\<close> and \<open>e\<close> with \<open>\<bar>m\<bar> < 2\<^sup>5\<^sup>3\<close>, written here as the pair \<open>(m, e)\<close>.
  Each operation takes the exact result, which is again of this form, and rounds it to 53
  significant bits, to the nearest such number and to the even one on a tie. The range of
  the exponent is not bounded here: overflow, subnormal numbers, infinities and NaN are
  not modelled.
\<close>

type_synonym binary64 = "int \<times> int"

fun bitlength :: "nat \<Rightarrow> nat" where
  "bitlength n = (if n = 0 then 0 else Suc (bitlength (n div 2)))"

declare bitlength.simps [simp del]

text \<open>\<open>round_half_even m k\<close> is \<open>m / 2\<^sup>k\<close> rounded to the nearest integer, ties to even.\<close>

definition round_half_even :: "nat \<Rightarrow> nat \<Rightarrow> nat" where
  "round_half_even m k =
     (let q = m div 2 ^ k;
          r = m mod 2 ^ k
      in if 2 * r < 2 ^ k then q
         else if 2 ^ k < 2 * r then q + 1
         else if even q then q else q + 1)"

fun round53 :: "int \<times> int \<Rightarrow> binary64" where
  "round53 (m, e) =
     (let k = bitlength (nat \<bar>m\<bar>) - 53
      in (sgn m * int (round_half_even (nat \<bar>m\<bar>) k), e + int k))"

text \<open>\<open>align (m, e) e'\<close> is the significand of \<open>m * 2\<^sup>e\<close> at the exponent \<open>e' \<le> e\<close>.\<close>

fun align :: "int \<times> int \<Rightarrow> int \<Rightarrow> int" where
  "align (m, e) e' = m * 2 ^ nat (e - e')"

fun double_add :: "binary64 \<Rightarrow> binary64 \<Rightarrow> binary64" where
  "double_add (m1, e1) (m2, e2) =
     round53 (align (m1, e1) (min e1 e2) + align (m2, e2) (min e1 e2), min e1 e2)"

fun double_sub :: "binary64 \<Rightarrow> binary64 \<Rightarrow> binary64" where
  "double_sub (m1, e1) (m2, e2) =
     round53 (align (m1, e1) (min e1 e2) - align (m2, e2) (min e1 e2), min e1 e2)"

fun double_mul :: "binary64 \<Rightarrow> binary64 \<Rightarrow> binary64" where
  "double_mul (m1, e1) (m2, e2) = round53 (m1 * m2, e1 + e2)"

text \<open>Python's \<open>==\<close> on two finite floats compares their values.\<close>

fun double_eq :: "binary64 \<Rightarrow> binary64 \<Rightarrow> bool" where
  "double_eq (m1, e1) (m2, e2) = (align (m1, e1) (min e1 e2) = align (m2, e2) (min e1 e2))"

fun double_value :: "binary64 \<Rightarrow> real" where
  "double_value (m, e) = real_of_int m * 2 powi e"

text \<open>
  \<open>euler_method\<close> again, statement by statement, with \<open>+\<close> and \<open>*\<close> those of
  binary64.
\<close>

type_synonym double_state = "binary64 list \<times> binary64 list \<times> binary64 \<times> binary64"

definition euler_body_double ::
  "(binary64 \<Rightarrow> binary64 \<Rightarrow> ('s, binary64) call) \<Rightarrow> binary64
     \<Rightarrow> double_state \<Rightarrow> ('s, double_state) call" where
  "euler_body_double f h = (\<lambda>(t_values, y_values, y, t).
     bind_call (f t y) (\<lambda>d.
       let y' = double_add y (double_mul h d);
           t' = double_add t h
       in unit_call (t_values @ [t'], y_values @ [y'], y', t')))"

definition euler_method_double ::
  "(binary64 \<Rightarrow> binary64 \<Rightarrow> ('s, binary64) call) \<Rightarrow> binary64 \<Rightarrow> binary64 \<Rightarrow> binary64
     \<Rightarrow> int \<Rightarrow> ('s, binary64 list \<times> binary64 list) call" where
  "euler_method_double f y0 t0 h n =
     bind_call (for_range n (euler_body_double f h) ([t0], [y0], y0, t0))
       (\<lambda>(t_values, y_values, y, t). unit_call (t_values, y_values))"

text \<open>
  The callable \<open>f(t, y) = 0.0\<close>, and the float that the literal \<open>0.1\<close> denotes: the
  binary64 number nearest to one tenth, \<open>3602879701896397 / 2\<^sup>5\<^sup>5\<close>.
\<close>

definition zero_deriv_double :: "binary64 \<Rightarrow> binary64 \<Rightarrow> ('s, binary64) call" where
  "zero_deriv_double t y = unit_call (0, 0)"

definition tenth :: binary64 where
  "tenth = (3602879701896397, -55)"

section \<open>Lemmas\<close>

subsection \<open>Sequencing and the loop\<close>

lemma bind_unit [simp]: "bind_call (unit_call x) k = k x"
  by (simp add: bind_call_def unit_call_def)

lemma bind_assoc: "bind_call (bind_call m k) k' = bind_call m (\<lambda>x. bind_call (k x) k')"
  by (auto simp: bind_call_def fun_eq_iff split: option.splits)

lemma bind_call_returns:
  "m s \<noteq> None \<Longrightarrow> (\<And>x s'. k x s' \<noteq> None) \<Longrightarrow> bind_call m k s \<noteq> None"
  by (auto simp: bind_call_def split: option.splits)

lemma unit_call_returns: "unit_call x s \<noteq> None"
  by (simp add: unit_call_def)

lemma repeat_invariant:
  assumes step: "\<And>j st s st' s'. I j st s \<Longrightarrow> body st s = Some (st', s') \<Longrightarrow> I (Suc j) st' s'"
  shows "I j st s \<Longrightarrow> repeat k body st s = Some (st', s') \<Longrightarrow> I (j + k) st' s'"
proof (induction k arbitrary: j st s)
  case 0
  then show ?case by (simp add: unit_call_def)
next
  case (Suc k)
  from Suc.prems(2) obtain st1 s1 where b: "body st s = Some (st1, s1)"
    and r: "repeat k body st1 s1 = Some (st', s')"
    by (auto simp: bind_call_def split: option.splits)
  from step [OF Suc.prems(1) b] have "I (Suc j) st1 s1" .
  from Suc.IH [OF this r] show ?case by simp
qed

lemma repeat_returns:
  assumes "\<And>st s. body st s \<noteq> None"
  shows "repeat k body st s \<noteq> None"
proof (induction k arbitrary: st s)
  case 0
  show ?case by (simp add: unit_call_def)
next
  case (Suc k)
  from assms obtain st1 s1 where "body st s = Some (st1, s1)" by fastforce
  with Suc.IH [of st1 s1] show ?case by (simp add: bind_call_def)
qed

subsection \<open>The bodies in their common shape\<close>

lemma euler_body_step: "euler_body f h = step_body (euler_update f h) h"
  by (simp add: euler_body_def step_body_def euler_update_def bind_assoc Let_def)

lemma heun_body_step: "heun_body f h = step_body (heun_update f h) h"
  by (simp add: heun_body_def step_body_def heun_update_def bind_assoc Let_def)

lemma runge_kutta_body_step: "runge_kutta_body f h = step_body (runge_kutta_update f h) h"
  by (simp add: runge_kutta_body_def step_body_def runge_kutta_update_def bind_assoc Let_def)

lemma midpoint_body_step: "midpoint_body f h = step_body (midpoint_update f h) h"
  by (simp add: midpoint_body_def step_body_def midpoint_update_def bind_assoc Let_def)

lemma euler_system_body_step: "euler_system_body f h = step_body (euler_update f h) h"
  by (simp add: euler_system_body_def step_body_def euler_update_def bind_assoc Let_def)

lemma runge_kutta_system_body_step:
  "runge_kutta_system_body f h = step_body (runge_kutta_system_update f h) h"
  by (simp add: runge_kutta_system_body_def step_body_def runge_kutta_system_update_def
      bind_assoc Let_def)

lemma loop_body_step: "loop_body m f h = step_body (update_of m f h) h"
  by (cases m) (simp_all add: euler_body_step heun_body_step runge_kutta_body_step
      midpoint_body_step euler_system_body_step runge_kutta_system_body_step)

lemma solve_loop:
  "solve m f y0 t0 h n =
     bind_call (for_range n (loop_body m f h) ([t0], [y0], y0, t0))
       (\<lambda>(t_values, y_values, y, t). unit_call (t_values, y_values))"
  by (cases m) (simp_all add: euler_method_def heun_method_def runge_kutta_method_def
      midpoint_method_def euler_method_system_def runge_kutta_method_system_def)

lemma solve_step: "solve m f y0 t0 h n = step_method (update_of m f h) y0 t0 h n"
  by (simp add: solve_loop loop_body_step step_method_def)

lemma verlet_body_step: "verlet_body f h = verlet_step_body (verlet_update f h) h"
  by (simp add: verlet_body_def verlet_step_body_def verlet_update_def bind_assoc Let_def)

lemma verlet_step: "verlet_method_system f y0 v0 t0 h n = verlet_step_method (verlet_update f h) y0 v0 t0 h n"
  by (simp add: verlet_method_system_def verlet_step_method_def verlet_body_step)

subsection \<open>Runs of a first-order loop\<close>

lemma step_body_Some:
  "step_body upd h (tv, yv, y, t) s = Some (st', s') \<longleftrightarrow>
     (\<exists>y'. upd t y s = Some (y', s') \<and> st' = (tv @ [t + h], yv @ [y'], y', t + h))"
  by (auto simp: step_body_def bind_call_def unit_call_def split: option.splits)

lemma step_method_Some:
  "step_method upd y0 t0 h n s = Some ((ts, ys), s') \<longleftrightarrow>
     (\<exists>y t. repeat (nat n) (step_body upd h) ([t0], [y0], y0, t0) s = Some ((ts, ys, y, t), s'))"
  by (auto simp: step_method_def for_range_def bind_call_def unit_call_def split: option.splits)

lemma step_method_shape:
  fixes upd :: "real \<Rightarrow> 'a \<Rightarrow> ('s, 'a) call"
  assumes "step_method upd y0 t0 h n s = Some ((ts, ys), s')"
  shows "length ts = nat n + 1 \<and> length ys = nat n + 1 \<and> ts ! 0 = t0 \<and> ys ! 0 = y0 \<and>
         (\<forall>i\<le>nat n. ts ! i = t0 + real i * h)"
proof -
  define I where "I = (\<lambda>j (st :: 'a ode_state) (s :: 's).
     case st of (tv, yv, y, t) \<Rightarrow>
       length tv = j + 1 \<and> length yv = j + 1 \<and> yv ! 0 = y0 \<and>
       t = t0 + real j * h \<and> (\<forall>i\<le>j. tv ! i = t0 + real i * h))"
  from assms obtain y t where
    r: "repeat (nat n) (step_body upd h) ([t0], [y0], y0, t0) s = Some ((ts, ys, y, t), s')"
    by (auto simp: step_method_Some)
  have step: "I (Suc j) st' s'" if "I j st s" "step_body upd h st s = Some (st', s')"
    for j st s st' s'
    using that
    by (cases st) (auto simp: I_def step_body_Some nth_append le_Suc_eq algebra_simps)
  have "I 0 ([t0], [y0], y0, t0) s" by (simp add: I_def)
  from repeat_invariant [of I, OF step this r] have "I (nat n) (ts, ys, y, t) s'" by simp
  then show ?thesis by (auto simp: I_def)
qed

lemma step_method_values:
  fixes upd :: "real \<Rightarrow> 'a \<Rightarrow> ('s, 'a) call"
  assumes val: "\<And>t y s r s'. upd t y s = Some (r, s') \<Longrightarrow> r = u t y"
    and run: "step_method upd y0 t0 h n s = Some ((ts, ys), s')"
  shows "\<forall>i<nat n. ys ! Suc i = u (ts ! i) (ys ! i)"
proof -
  define I where "I = (\<lambda>j (st :: 'a ode_state) (s :: 's).
     case st of (tv, yv, y, t) \<Rightarrow>
       length tv = j + 1 \<and> length yv = j + 1 \<and> t = tv ! j \<and> y = yv ! j \<and>
       (\<forall>i<j. yv ! Suc i = u (tv ! i) (yv ! i)))"
  from run obtain y t where
    r: "repeat (nat n) (step_body upd h) ([t0], [y0], y0, t0) s = Some ((ts, ys, y, t), s')"
    by (auto simp: step_method_Some)
  have step: "I (Suc j) st' s'" if "I j st s" "step_body upd h st s = Some (st', s')"
    for j st s st' s'
    using that
    by (cases st) (auto simp: I_def step_body_Some nth_append less_Suc_eq dest!: val)
  have "I 0 ([t0], [y0], y0, t0) s" by (simp add: I_def)
  from repeat_invariant [of I, OF step this r] have "I (nat n) (ts, ys, y, t) s'" by simp
  then show ?thesis by (simp add: I_def)
qed

lemma step_method_returns:
  fixes upd :: "real \<Rightarrow> 'a \<Rightarrow> ('s, 'a) call"
  assumes tot: "\<And>t y s. upd t y s \<noteq> None"
  shows "step_method upd y0 t0 h n s \<noteq> None"
proof -
  have "step_body upd h st s \<noteq> None" for st :: "'a ode_state" and s
    using tot [of "snd (snd (snd st))" "fst (snd (snd st))" s]
    by (cases st) (auto simp: step_body_def bind_call_def unit_call_def)
  then have "repeat (nat n) (step_body upd h) ([t0], [y0], y0, t0) s \<noteq> None"
    by (rule repeat_returns)
  then show ?thesis
    by (auto simp: step_method_def for_range_def bind_call_def unit_call_def)
qed

lemma step_method_calls:
  fixes upd :: "real \<Rightarrow> 'a \<Rightarrow> (nat, 'a) call"
  assumes cnt: "\<And>t y c r c'. upd t y c = Some (r, c') \<Longrightarrow> c' = c + m"
    and run: "step_method upd y0 t0 h n c = Some (r, c')"
  shows "c' = c + nat n * m"
proof -
  define I where "I = (\<lambda>j (st :: 'a ode_state) (s :: nat). s = c + j * m)"
  from run obtain ts ys y t where
    r: "repeat (nat n) (step_body upd h) ([t0], [y0], y0, t0) c = Some ((ts, ys, y, t), c')"
    by (cases r) (auto simp: step_method_Some)
  have step: "I (Suc j) st' s'" if "I j st s" "step_body upd h st s = Some (st', s')"
    for j st s st' s'
    using that by (cases st) (auto simp: I_def step_body_Some dest!: cnt)
  have "I 0 ([t0], [y0], y0, t0) c" by (simp add: I_def)
  from repeat_invariant [of I, OF step this r] show ?thesis by (simp add: I_def)
qed

lemma step_method_state_unchanged:
  fixes upd :: "real \<Rightarrow> 'a \<Rightarrow> ('s, 'a) call"
  assumes same: "\<And>t y s r s'. upd t y s = Some (r, s') \<Longrightarrow> s' = s"
    and run: "step_method upd y0 t0 h n s = Some (r, s')"
  shows "s' = s"
proof -
  define I where "I = (\<lambda>(j::nat) (st :: 'a ode_state) (x :: 's). x = s)"
  from run obtain ts ys y t where
    r: "repeat (nat n) (step_body upd h) ([t0], [y0], y0, t0) s = Some ((ts, ys, y, t), s')"
    by (cases r) (auto simp: step_method_Some)
  have step: "I (Suc j) st' s'" if "I j st s" "step_body upd h st s = Some (st', s')"
    for j st s st' s'
    using that by (cases st) (auto simp: I_def step_body_Some dest!: same)
  have "I 0 ([t0], [y0], y0, t0) s" by (simp add: I_def)
  from repeat_invariant [of I, OF step this r] show ?thesis by (simp add: I_def)
qed

lemma step_method_no_steps: "n \<le> 0 \<Longrightarrow> step_method upd y0 t0 h n = unit_call ([t0], [y0])"
  by (simp add: step_method_def for_range_def)

subsection \<open>Runs of the Verlet loop\<close>

lemma verlet_step_body_Some:
  "verlet_step_body upd h (tv, yv, vv, y, v, t) s = Some (st', s') \<longleftrightarrow>
     (\<exists>y' v'. upd t y v s = Some ((y', v'), s') \<and>
        st' = (tv @ [t + h], yv @ [y'], vv @ [v'], y', v', t + h))"
  by (auto simp: verlet_step_body_def bind_call_def unit_call_def split: option.splits)

lemma verlet_step_method_Some:
  "verlet_step_method upd y0 v0 t0 h n s = Some ((ts, ys, vs), s') \<longleftrightarrow>
     (\<exists>y v t. repeat (nat n) (verlet_step_body upd h) ([t0], [y0], [v0], y0, v0, t0) s
        = Some ((ts, ys, vs, y, v, t), s'))"
  by (auto simp: verlet_step_method_def for_range_def bind_call_def unit_call_def
      split: option.splits)

lemma verlet_step_method_shape:
  fixes upd :: "real \<Rightarrow> 'a \<Rightarrow> 'a \<Rightarrow> ('s, 'a \<times> 'a) call"
  assumes "verlet_step_method upd y0 v0 t0 h n s = Some ((ts, ys, vs), s')"
  shows "length ts = nat n + 1 \<and> length ys = nat n + 1 \<and> length vs = nat n + 1 \<and>
         ts ! 0 = t0 \<and> ys ! 0 = y0 \<and> vs ! 0 = v0 \<and>
         (\<forall>i\<le>nat n. ts ! i = t0 + real i * h)"
proof -
  define I where "I = (\<lambda>j (st :: 'a verlet_state) (s :: 's).
     case st of (tv, yv, vv, y, v, t) \<Rightarrow>
       length tv = j + 1 \<and> length yv = j + 1 \<and> length vv = j + 1 \<and>
       yv ! 0 = y0 \<and> vv ! 0 = v0 \<and>
       t = t0 + real j * h \<and> (\<forall>i\<le>j. tv ! i = t0 + real i * h))"
  from assms obtain y v t where
    r: "repeat (nat n) (verlet_step_body upd h) ([t0], [y0], [v0], y0, v0, t0) s
          = Some ((ts, ys, vs, y, v, t), s')"
    by (auto simp: verlet_step_method_Some)
  have step: "I (Suc j) st' s'" if "I j st s" "verlet_step_body upd h st s = Some (st', s')"
    for j st s st' s'
    using that
    by (cases st) (auto simp: I_def verlet_step_body_Some nth_append le_Suc_eq algebra_simps)
  have "I 0 ([t0], [y0], [v0], y0, v0, t0) s" by (simp add: I_def)
  from repeat_invariant [of I, OF step this r] have "I (nat n) (ts, ys, vs, y, v, t) s'"
    by simp
  then show ?thesis by (auto simp: I_def)
qed

lemma verlet_step_method_values:
  fixes upd :: "real \<Rightarrow> 'a \<Rightarrow> 'a \<Rightarrow> ('s, 'a \<times> 'a) call"
  assumes val: "\<And>t y v s r s'. upd t y v s = Some (r, s') \<Longrightarrow> r = u t y v"
    and run: "verlet_step_method upd y0 v0 t0 h n s = Some ((ts, ys, vs), s')"
  shows "\<forall>i<nat n. (ys ! Suc i, vs ! Suc i) = u (ts ! i) (ys ! i) (vs ! i)"
proof -
  define I where "I = (\<lambda>j (st :: 'a verlet_state) (s :: 's).
     case st of (tv, yv, vv, y, v, t) \<Rightarrow>
       length tv = j + 1 \<and> length yv = j + 1 \<and> length vv = j + 1 \<and>
       t = tv ! j \<and> y = yv ! j \<and> v = vv ! j \<and>
       (\<forall>i<j. (yv ! Suc i, vv ! Suc i) = u (tv ! i) (yv ! i) (vv ! i)))"
  from run obtain y v t where
    r: "repeat (nat n) (verlet_step_body upd h) ([t0], [y0], [v0], y0, v0, t0) s
          = Some ((ts, ys, vs, y, v, t), s')"
    by (auto simp: verlet_step_method_Some)
  have step: "I (Suc j) st' s'" if "I j st s" "verlet_step_body upd h st s = Some (st', s')"
    for j st s st' s'
    using that
    by (cases st) (auto simp: I_def verlet_step_body_Some nth_append less_Suc_eq dest!: val)
  have "I 0 ([t0], [y0], [v0], y0, v0, t0) s" by (simp add: I_def)
  from repeat_invariant [of I, OF step this r] have "I (nat n) (ts, ys, vs, y, v, t) s'"
    by simp
  then show ?thesis by (simp add: I_def)
qed

lemma verlet_step_method_returns:
  fixes upd :: "real \<Rightarrow> 'a \<Rightarrow> 'a \<Rightarrow> ('s, 'a \<times> 'a) call"
  assumes tot: "\<And>t y v s. upd t y v s \<noteq> None"
  shows "verlet_step_method upd y0 v0 t0 h n s \<noteq> None"
proof -
  have "verlet_step_body upd h st s \<noteq> None" for st :: "'a verlet_state" and s
  proof (cases st)
    case (fields tv yv vv y v t)
    from tot [of t y v s] show ?thesis
      by (auto simp: fields verlet_step_body_def bind_call_def unit_call_def)
  qed
  then have "repeat (nat n) (verlet_step_body upd h) ([t0], [y0], [v0], y0, v0, t0) s \<noteq> None"
    by (rule repeat_returns)
  then show ?thesis
    by (auto simp: verlet_step_method_def for_range_def bind_call_def unit_call_def)
qed

lemma verlet_step_method_state_unchanged:
  fixes upd :: "real \<Rightarrow> 'a \<Rightarrow> 'a \<Rightarrow> ('s, 'a \<times> 'a) call"
  assumes same: "\<And>t y v s r s'. upd t y v s = Some (r, s') \<Longrightarrow> s' = s"
    and run: "verlet_step_method upd y0 v0 t0 h n s = Some (r, s')"
  shows "s' = s"
proof -
  define I where "I = (\<lambda>(j::nat) (st :: 'a verlet_state) (x :: 's). x = s)"
  from run obtain ts ys vs y v t where
    r: "repeat (nat n) (verlet_step_body upd h) ([t0], [y0], [v0], y0, v0, t0) s
          = Some ((ts, ys, vs, y, v, t), s')"
    by (cases r) (auto simp: verlet_step_method_Some)
  have step: "I (Suc j) st' s'" if "I j st s" "verlet_step_body upd h st s = Some (st', s')"
    for j st s st' s'
    using that by (cases st) (auto simp: I_def verlet_step_body_Some dest!: same)
  have "I 0 ([t0], [y0], [v0], y0, v0, t0) s" by (simp add: I_def)
  from repeat_invariant [of I, OF step this r] show ?thesis by (simp add: I_def)
qed

lemma verlet_step_method_no_steps:
  "n \<le> 0 \<Longrightarrow> verlet_step_method upd y0 v0 t0 h n = unit_call ([t0], [y0], [v0])"
  by (simp add: verlet_step_method_def for_range_def)

subsection \<open>The updates\<close>

lemma update_of_returns:
  assumes "\<And>t y s. f t y s \<noteq> None"
  shows "update_of m f h t y s \<noteq> None"
  by (cases m)
    (simp_all add: euler_update_def heun_update_def runge_kutta_update_def midpoint_update_def
      runge_kutta_system_update_def bind_call_returns unit_call_returns assms)

lemma update_of_pure: "update_of m (pure_call g) h t y s = Some (r, s') \<Longrightarrow> s' = s"
  by (cases m; simp add: euler_update_def heun_update_def runge_kutta_update_def
      midpoint_update_def runge_kutta_system_update_def pure_call_def; simp add: unit_call_def)

lemma update_of_zero: "update_of m (pure_call zero_deriv) h t y = unit_call y"
  by (cases m)
    (simp_all add: euler_update_def heun_update_def runge_kutta_update_def midpoint_update_def
      runge_kutta_system_update_def pure_call_def zero_deriv_def)

lemma euler_update_counted:
  "euler_update (counted g) h t y c = Some (y + h *\<^sub>R g t y, Suc c)"
  by (simp add: euler_update_def counted_def bind_call_def unit_call_def)

lemma heun_update_counted:
  "heun_update (counted g) h t y c =
     Some (y + (h / 2) *\<^sub>R (g t y + g (t + h) (y + h *\<^sub>R g t y)), c + 3)"
  by (simp add: heun_update_def counted_def bind_call_def unit_call_def)

lemma runge_kutta_update_eq: "runge_kutta_update f h = runge_kutta_system_update f h"
  by (simp add: runge_kutta_update_def runge_kutta_system_update_def fun_eq_iff
      scaleR_add_right mult.commute)

lemma verlet_update_pure:
  "verlet_update (pure_accel g) h t y v =
     unit_call (y + h *\<^sub>R v + (0.5 * h\<^sup>2) *\<^sub>R g t y v,
       v + (0.5 * h) *\<^sub>R (g t y v + g (t + h) (y + h *\<^sub>R v + (0.5 * h\<^sup>2) *\<^sub>R g t y v) v))"
  by (simp add: verlet_update_def pure_accel_def)

lemma verlet_update_returns:
  assumes "\<And>t y v s. f t y v s \<noteq> None"
  shows "verlet_update f h t y v s \<noteq> None"
  by (simp add: verlet_update_def bind_call_returns unit_call_returns assms)

subsection \<open>A solver returns when the callable never raises\<close>

lemma solve_returns:
  assumes "\<And>t y s. f t y s \<noteq> None"
  shows "solve m f y0 t0 h n s \<noteq> None"
  unfolding solve_step by (rule step_method_returns) (simp add: update_of_returns assms)

lemma verlet_method_system_returns:
  assumes "\<And>t y v s. a t y v s \<noteq> None"
  shows "verlet_method_system a y0 v0 t0 h n s \<noteq> None"
  unfolding verlet_step by (rule verlet_step_method_returns) (simp add: verlet_update_returns assms)

subsection \<open>Runs with a callable that computes a function\<close>

lemma step_method_counted_run:
  fixes upd :: "real \<Rightarrow> 'a \<Rightarrow> (nat, 'a) call"
  assumes upd: "\<And>t y c. upd t y c = Some (u t y, c + m)"
  shows "\<exists>ts ys. step_method upd y0 t0 h n c = Some ((ts, ys), c + nat n * m) \<and>
           (\<forall>i<nat n. ys ! Suc i = u (ts ! i) (ys ! i))"
proof -
  have "step_method upd y0 t0 h n c \<noteq> None"
    by (rule step_method_returns) (simp add: upd)
  then obtain ts ys c' where run: "step_method upd y0 t0 h n c = Some ((ts, ys), c')"
    by fastforce
  have "c' = c + nat n * m"
    by (rule step_method_calls [OF _ run]) (simp add: upd)
  moreover have "\<forall>i<nat n. ys ! Suc i = u (ts ! i) (ys ! i)"
    by (rule step_method_values [OF _ run]) (simp add: upd)
  ultimately show ?thesis using run by simp
qed

lemma step_method_pure_run:
  fixes upd :: "real \<Rightarrow> 'a \<Rightarrow> ('s, 'a) call"
  assumes upd: "\<And>t y. upd t y = unit_call (u t y)"
  shows "\<exists>ts ys. step_method upd y0 t0 h n s = Some ((ts, ys), s) \<and>
           length ys = nat n + 1 \<and> ys ! 0 = y0 \<and>
           (\<forall>i<nat n. ys ! Suc i = u (ts ! i) (ys ! i))"
proof -
  have "step_method upd y0 t0 h n s \<noteq> None"
    by (rule step_method_returns) (simp add: upd unit_call_def)
  then obtain ts ys s' where run: "step_method upd y0 t0 h n s = Some ((ts, ys), s')"
    by fastforce
  have "s' = s"
    by (rule step_method_state_unchanged [OF _ run]) (simp add: upd unit_call_def)
  moreover have "\<forall>i<nat n. ys ! Suc i = u (ts ! i) (ys ! i)"
    by (rule step_method_values [OF _ run]) (simp add: upd unit_call_def)
  moreover from step_method_shape [OF run] have "length ys = nat n + 1" "ys ! 0 = y0"
    by simp_all
  ultimately show ?thesis using run by simp
qed

lemma verlet_pure_run:
  "\<exists>ts ys vs. verlet_method_system (pure_accel g) y0 v0 t0 h n s = Some ((ts, ys, vs), s) \<and>
     ys ! 0 = y0 \<and> vs ! 0 = v0 \<and>
     (\<forall>i<nat n. ts ! Suc i = ts ! i + h \<and>
        ys ! Suc i = ys ! i + h *\<^sub>R vs ! i + (0.5 * h\<^sup>2) *\<^sub>R g (ts ! i) (ys ! i) (vs ! i) \<and>
        vs ! Suc i = vs ! i + (0.5 * h) *\<^sub>R
          (g (ts ! i) (ys ! i) (vs ! i) + g (ts ! i + h) (ys ! Suc i) (vs ! i)))"
proof -
  let ?upd = "verlet_update (pure_accel g) h"
  let ?u = "\<lambda>t y v. (y + h *\<^sub>R v + (0.5 * h\<^sup>2) *\<^sub>R g t y v,
       v + (0.5 * h) *\<^sub>R (g t y v + g (t + h) (y + h *\<^sub>R v + (0.5 * h\<^sup>2) *\<^sub>R g t y v) v))"
  have "verlet_step_method ?upd y0 v0 t0 h n s \<noteq> None"
    by (rule verlet_step_method_returns) (simp add: verlet_update_pure unit_call_def)
  then obtain ts ys vs s' where
    run: "verlet_step_method ?upd y0 v0 t0 h n s = Some ((ts, ys, vs), s')"
    by fastforce
  have "s' = s"
    by (rule verlet_step_method_state_unchanged [OF _ run])
      (simp add: verlet_update_pure unit_call_def)
  have vals: "\<forall>i<nat n. (ys ! Suc i, vs ! Suc i) = ?u (ts ! i) (ys ! i) (vs ! i)"
    by (rule verlet_step_method_values [OF _ run]) (simp add: verlet_update_pure unit_call_def)
  from verlet_step_method_shape [OF run]
  have shape: "ys ! 0 = y0" "vs ! 0 = v0" "\<forall>i\<le>nat n. ts ! i = t0 + real i * h"
    by simp_all
  have times: "ts ! Suc i = ts ! i + h" if "i < nat n" for i
  proof -
    from that shape(3) have "ts ! Suc i = t0 + real (Suc i) * h" "ts ! i = t0 + real i * h"
      by simp_all
    then show ?thesis by (simp add: algebra_simps)
  qed
  show ?thesis
  proof (intro exI conjI allI impI)
    show "verlet_method_system (pure_accel g) y0 v0 t0 h n s = Some ((ts, ys, vs), s)"
      using run \<open>s' = s\<close> by (simp add: verlet_step)
    show "ys ! 0 = y0" "vs ! 0 = v0" by (fact shape)+
  next
    fix i assume i: "i < nat n"
    then show "ts ! Suc i = ts ! i + h" by (rule times)
    from vals i have eq: "(ys ! Suc i, vs ! Suc i) = ?u (ts ! i) (ys ! i) (vs ! i)" by blast
    from eq show y: "ys ! Suc i = ys ! i + h *\<^sub>R vs ! i + (0.5 * h\<^sup>2) *\<^sub>R g (ts ! i) (ys ! i) (vs ! i)"
      by simp
    from eq show "vs ! Suc i = vs ! i + (0.5 * h) *\<^sub>R
          (g (ts ! i) (ys ! i) (vs ! i) + g (ts ! i + h) (ys ! Suc i) (vs ! i))"
      by simp
  qed
qed

subsection \<open>Constant acceleration\<close>

lemma const_accel_closed_form:
  fixes ys vs :: "'a::real_vector list"
  assumes y0: "ys ! 0 = y0" and v0: "vs ! 0 = v0"
    and rec: "\<forall>i<N. ys ! Suc i = ys ! i + h *\<^sub>R vs ! i + (0.5 * h\<^sup>2) *\<^sub>R g \<and>
                    vs ! Suc i = vs ! i + (0.5 * h) *\<^sub>R (g + g)"
  shows "i \<le> N \<Longrightarrow> vs ! i = v0 + (real i * h) *\<^sub>R g \<and>
           ys ! i = y0 + (real i * h) *\<^sub>R v0 + ((real i * h)\<^sup>2) *\<^sub>R (0.5 *\<^sub>R g)"
proof (induction i)
  case 0
  show ?case by (simp add: y0 v0)
next
  case (Suc i)
  then have i: "i < N" and ih: "vs ! i = v0 + (real i * h) *\<^sub>R g"
    "ys ! i = y0 + (real i * h) *\<^sub>R v0 + ((real i * h)\<^sup>2) *\<^sub>R (0.5 *\<^sub>R g)"
    by simp_all
  from rec i have y: "ys ! Suc i = ys ! i + h *\<^sub>R vs ! i + (0.5 * h\<^sup>2) *\<^sub>R g"
    and v: "vs ! Suc i = vs ! i + (0.5 * h) *\<^sub>R (g + g)" by blast+
  have c1: "real i * h + h = real (Suc i) * h"
    by (simp add: algebra_simps)
  have c2: "(real i * h)\<^sup>2 * 0.5 + h * (real i * h) + 0.5 * h\<^sup>2 = (real (Suc i) * h)\<^sup>2 * 0.5"
    by (simp add: power2_eq_square algebra_simps)
  have half: "(0.5 * h) *\<^sub>R (g + g) = h *\<^sub>R g"
    by (simp flip: scaleR_2)
  have "vs ! Suc i = v0 + ((real i * h) *\<^sub>R g + h *\<^sub>R g)"
    unfolding v ih half by (simp only: add.assoc)
  also have "\<dots> = v0 + (real i * h + h) *\<^sub>R g"
    by (simp only: scaleR_left_distrib)
  finally have v': "vs ! Suc i = v0 + (real (Suc i) * h) *\<^sub>R g"
    by (simp only: c1)
  have "ys ! Suc i = y0 + (real i * h) *\<^sub>R v0 + ((real i * h)\<^sup>2 * 0.5) *\<^sub>R g
          + (h *\<^sub>R v0 + (h * (real i * h)) *\<^sub>R g) + (0.5 * h\<^sup>2) *\<^sub>R g"
    unfolding y ih by (simp only: scaleR_right_distrib scaleR_scaleR)
  also have "\<dots> = y0 + (real i * h + h) *\<^sub>R v0
          + ((real i * h)\<^sup>2 * 0.5 + h * (real i * h) + 0.5 * h\<^sup>2) *\<^sub>R g"
    by (simp only: scaleR_left_distrib add.assoc add.commute add.left_commute)
  also have "\<dots> = y0 + (real (Suc i) * h) *\<^sub>R v0 + ((real (Suc i) * h)\<^sup>2 * 0.5) *\<^sub>R g"
    by (simp only: c1 c2)
  also have "\<dots> = y0 + (real (Suc i) * h) *\<^sub>R v0 + ((real (Suc i) * h)\<^sup>2) *\<^sub>R (0.5 *\<^sub>R g)"
    by (simp only: scaleR_scaleR)
  finally show ?case using v' by simp
qed

subsection \<open>The exponential at one tenth\<close>

lemma exp_tenth_bounds:
  "265241 / 240000 \<le> exp (1/10 :: real)" "exp (1/10 :: real) \<le> 265241 / 240000 + 1 / 10^6"
proof -
  from Maclaurin_exp_le [of "1/10" 5] obtain t :: real where
    t: "\<bar>t\<bar> \<le> \<bar>1/10\<bar>" and
    e: "exp (1/10) = (\<Sum>m<5. (1/10) ^ m / fact m) + exp t / fact 5 * (1/10) ^ 5"
    by blast
  have s: "(\<Sum>m<5. (1/10 :: real) ^ m / fact m) = 265241 / 240000"
    by (simp add: eval_nat_numeral lessThan_Suc fact_numeral)
  have "t \<le> 1" using t by simp
  then have "exp t \<le> exp 1" by simp
  also have "\<dots> \<le> 3" by (rule exp_le)
  finally have up: "exp t \<le> 3" .
  have lo: "0 \<le> exp t" by simp
  have e': "exp (1/10) = 265241 / 240000 + exp t / 12000000"
    unfolding e s by (simp add: fact_numeral eval_nat_numeral)
  from lo show "265241 / 240000 \<le> exp (1/10 :: real)" unfolding e' by simp
  from up show "exp (1/10 :: real) \<le> 265241 / 240000 + 1 / 10^6" unfolding e' by simp
qed

subsection \<open>Runs with a logged callable\<close>

lemma step_method_logged_run:
  fixes upd :: "real \<Rightarrow> 'a \<Rightarrow> ((real \<times> 'a) list, 'a) call"
  assumes upd: "\<And>t y calls. upd t y calls = Some (u t y, calls @ c t y)"
  shows "\<exists>ts ys. step_method upd y0 t0 h n calls
             = Some ((ts, ys), calls @ concat (map (\<lambda>i. c (ts ! i) (ys ! i)) [0..<nat n])) \<and>
           (\<forall>i<nat n. ys ! Suc i = u (ts ! i) (ys ! i))"
proof -
  define I where "I = (\<lambda>j (st :: 'a ode_state) (s :: (real \<times> 'a) list).
     case st of (tv, yv, y, t) \<Rightarrow>
       length tv = j + 1 \<and> length yv = j + 1 \<and> t = tv ! j \<and> y = yv ! j \<and>
       s = calls @ concat (map (\<lambda>i. c (tv ! i) (yv ! i)) [0..<j]))"
  have "step_method upd y0 t0 h n calls \<noteq> None"
    by (rule step_method_returns) (simp add: upd)
  then obtain ts ys calls' where run: "step_method upd y0 t0 h n calls = Some ((ts, ys), calls')"
    by fastforce
  then obtain y t where
    r: "repeat (nat n) (step_body upd h) ([t0], [y0], y0, t0) calls = Some ((ts, ys, y, t), calls')"
    by (auto simp: step_method_Some)
  have step: "I (Suc j) st' s'" if "I j st s" "step_body upd h st s = Some (st', s')"
    for j st s st' s'
  proof (cases st)
    case (fields tv yv y t)
    from that(1) have len: "length tv = j + 1" "length yv = j + 1"
      and cur: "t = tv ! j" "y = yv ! j"
      and s: "s = calls @ concat (map (\<lambda>i. c (tv ! i) (yv ! i)) [0..<j])"
      by (simp_all add: I_def fields)
    from that(2) have st': "st' = (tv @ [t + h], yv @ [u t y], u t y, t + h)"
      and s': "s' = s @ c t y"
      by (auto simp: fields step_body_Some upd)
    have eq1: "map (\<lambda>i. c ((tv @ [t + h]) ! i) ((yv @ [u t y]) ! i)) [0..<j]
            = map (\<lambda>i. c (tv ! i) (yv ! i)) [0..<j]"
      using len by (intro map_cong) (simp_all add: nth_append)
    have eq2: "c ((tv @ [t + h]) ! j) ((yv @ [u t y]) ! j) = c t y"
      using len cur by (simp add: nth_append)
    have new: "(tv @ [t + h]) ! Suc j = t + h" "(yv @ [u t y]) ! Suc j = u t y"
      using len by (simp_all add: nth_append)
    show ?thesis
      using len by (simp add: I_def st' s' s eq1 eq2 new)
  qed
  have "I 0 ([t0], [y0], y0, t0) calls" by (simp add: I_def)
  from repeat_invariant [of I, OF step this r] have "I (nat n) (ts, ys, y, t) calls'" by simp
  then have "calls' = calls @ concat (map (\<lambda>i. c (ts ! i) (ys ! i)) [0..<nat n])"
    by (simp add: I_def)
  moreover have "\<forall>i<nat n. ys ! Suc i = u (ts ! i) (ys ! i)"
    by (rule step_method_values [OF _ run]) (simp add: upd)
  ultimately show ?thesis using run by simp
qed

lemma heun_update_logged:
  "heun_update (logged (\<lambda>k. g)) h t y calls
     = Some (y + (h / 2) *\<^sub>R (g t y + g (t + h) (y + h *\<^sub>R g t y)),
             calls @ [(t, y), (t, y), (t + h, y + h *\<^sub>R g t y)])"
  by (simp add: heun_update_def logged_def bind_call_def unit_call_def)

lemma heun_logged_run:
  "\<exists>ts ys. heun_method (logged (\<lambda>k. g)) y0 t0 h n calls
        = Some ((ts, ys), calls @ concat (map (\<lambda>i.
            [(ts ! i, ys ! i), (ts ! i, ys ! i), (ts ! i + h, ys ! i + h *\<^sub>R g (ts ! i) (ys ! i))])
            [0..<nat n])) \<and>
      (\<forall>i<nat n. ys ! Suc i
         = ys ! i + (h / 2) *\<^sub>R (g (ts ! i) (ys ! i)
             + g (ts ! i + h) (ys ! i + h *\<^sub>R g (ts ! i) (ys ! i))))"
  using step_method_logged_run [of "heun_update (logged (\<lambda>k. g)) h"
      "\<lambda>t y. y + (h / 2) *\<^sub>R (g t y + g (t + h) (y + h *\<^sub>R g t y))"
      "\<lambda>t y. [(t, y), (t, y), (t + h, y + h *\<^sub>R g t y)]" y0 t0 h n calls]
    solve_step [of Heun "logged (\<lambda>k. g)" y0 t0 h n]
  by (simp add: heun_update_logged)

subsection \<open>Binary64 arithmetic\<close>

text \<open>
  The equations of the operations are applied to numerals only, where they compute.
\<close>

declare round53.simps [simp del] align.simps [simp del]
  double_add.simps [simp del] double_sub.simps [simp del] double_mul.simps [simp del]
  double_eq.simps [simp del]

lemmas double_defs = double_add.simps double_sub.simps double_mul.simps double_eq.simps
  round53.simps align.simps round_half_even_def bitlength.simps Let_def

text \<open>
  The rounding is to nearest: the rounded significand, scaled back, is at most half a unit
  of the last kept place from the exact one. A significand of at most 53 bits is kept as
  it is. \<open>double_eq\<close> is equality of values.
\<close>

lemma round_half_even_nearest:
  "2 * \<bar>int (round_half_even n k) * 2 ^ k - int n\<bar> \<le> 2 ^ k"
proof -
  define q r where "q = n div 2 ^ k" and "r = n mod 2 ^ k"
  have "n = q * 2 ^ k + r"
    unfolding q_def r_def by (rule div_mult_mod_eq [symmetric])
  then have "int n = int (q * 2 ^ k + r)"
    by (rule arg_cong)
  then have n: "int n = int q * 2 ^ k + int r"
    by simp
  have "r < 2 ^ k"
    by (simp add: r_def)
  then have "int r < int (2 ^ k)"
    by (simp only: of_nat_less_iff)
  then have r: "int r < 2 ^ k"
    by simp
  have c1: "(2 * r < 2 ^ k) = (2 * int r < 2 ^ k)"
    using of_nat_less_iff [of "2 * r" "2 ^ k", where ?'a = int] by simp
  have c2: "(2 ^ k < 2 * r) = (2 ^ k < 2 * int r)"
    using of_nat_less_iff [of "2 ^ k" "2 * r", where ?'a = int] by simp
  have "round_half_even n k = q \<and> 2 * int r \<le> 2 ^ k \<or>
        round_half_even n k = q + 1 \<and> 2 ^ k \<le> 2 * int r"
    unfolding round_half_even_def Let_def q_def [symmetric] r_def [symmetric] c1 c2
    by auto
  then show ?thesis
  proof
    assume "round_half_even n k = q \<and> 2 * int r \<le> 2 ^ k"
    then show ?thesis by (simp add: n)
  next
    assume a: "round_half_even n k = q + 1 \<and> 2 ^ k \<le> 2 * int r"
    then have "int (round_half_even n k) * 2 ^ k - int n = 2 ^ k - int r"
      by (simp add: n algebra_simps)
    with a r show ?thesis by simp
  qed
qed

lemma bitlength_bound: "n < 2 ^ k \<Longrightarrow> bitlength n \<le> k"
proof (induction n arbitrary: k rule: bitlength.induct)
  case (1 n)
  show ?case
  proof (cases "n = 0")
    case True
    then show ?thesis by (simp add: bitlength.simps)
  next
    case False
    with "1.prems" obtain k' where k: "k = Suc k'"
      by (cases k) auto
    with "1.prems" have "n div 2 < 2 ^ k'" by auto
    from "1.IH" [OF False this] False k show ?thesis
      by (simp add: bitlength.simps [of n])
  qed
qed

lemma round53_exact: "\<bar>m\<bar> < 2 ^ 53 \<Longrightarrow> round53 (m, e) = (m, e)"
proof -
  assume "\<bar>m\<bar> < 2 ^ 53"
  then have "nat \<bar>m\<bar> < 2 ^ 53" by (simp add: nat_less_iff)
  then have "bitlength (nat \<bar>m\<bar>) - 53 = 0"
    using bitlength_bound [of "nat \<bar>m\<bar>" 53] by simp
  then show ?thesis
    by (simp add: round53.simps round_half_even_def Let_def mult_sgn_abs)
qed

lemma align_value:
  assumes "e' \<le> e"
  shows "real_of_int (align (m, e) e') * 2 powi e' = double_value (m, e)"
proof -
  from assms have "(2::real) ^ nat (e - e') = 2 powi (e - e')"
    by (simp add: power_int_def)
  moreover have "(2::real) powi (e - e') * 2 powi e' = 2 powi e"
    by (simp flip: power_int_add)
  ultimately show ?thesis
    by (simp add: align.simps mult.assoc)
qed

lemma double_eq_value: "double_eq a b \<longleftrightarrow> double_value a = double_value b"
proof (cases a, cases b)
  fix m1 e1 m2 e2
  assume a: "a = (m1, e1)" and b: "b = (m2, e2)"
  let ?e = "min e1 e2"
  have "double_value (m1, e1) = real_of_int (align (m1, e1) ?e) * 2 powi ?e"
    "double_value (m2, e2) = real_of_int (align (m2, e2) ?e) * 2 powi ?e"
    by (simp_all only: align_value min.cobounded1 min.cobounded2)
  then show ?thesis
    by (simp add: a b double_eq.simps del: double_value.simps)
qed

text \<open>The literal \<open>0.1\<close>: \<open>tenth\<close> is within half a unit in the last place of 1/10.\<close>

lemma tenth_nearest: "\<bar>double_value tenth - 1 / 10\<bar> < 2 powi (-57)"
  by (simp add: tenth_def power_int_minus field_simps)

text \<open>The additions and the subtraction of the run with \<open>h = 0.1\<close>, one by one.\<close>

lemma zero_plus_tenth: "double_add (0, 0) tenth = (3602879701896397, -55)"
  by (simp add: tenth_def double_defs)

lemma tenth_plus_tenth: "double_add (3602879701896397, -55) tenth = (7205759403792794, -55)"
  by (simp add: tenth_def double_defs)

lemma two_tenths_plus_tenth: "double_add (7205759403792794, -55) tenth = (5404319552844596, -54)"
  by (simp add: tenth_def double_defs)

lemma third_time_minus_second: "double_sub (5404319552844596, -54) (7205759403792794, -55) = (3602879701896398, -55)"
  by (simp add: double_defs)

lemma difference_not_tenth: "\<not> double_eq (3602879701896398, -55) tenth"
  by (simp add: tenth_def double_defs)

lemma one_plus_zero_step: "double_add (1, 0) (double_mul tenth (0, 0)) = (4503599627370496, -52)"
  by (simp add: tenth_def double_defs)

lemma one_stays: "double_add (4503599627370496, -52) (double_mul tenth (0, 0)) = (4503599627370496, -52)"
  by (simp add: tenth_def double_defs)


lemma euler_body_double_zero:
  "euler_body_double zero_deriv_double h (tv, yv, y, t) s
     = Some ((tv @ [double_add t h], yv @ [double_add y (double_mul h (0, 0))],
              double_add y (double_mul h (0, 0)), double_add t h), s)"
  by (simp add: euler_body_double_def zero_deriv_double_def bind_call_def unit_call_def Let_def)

lemma euler_double_run:
  "euler_method_double zero_deriv_double (1, 0) (0, 0) tenth 3 ()
     = Some (([(0, 0), (3602879701896397, -55), (7205759403792794, -55), (5404319552844596, -54)],
              [(1, 0), (4503599627370496, -52), (4503599627370496, -52), (4503599627370496, -52)]), ())"
  by (simp add: euler_method_double_def for_range_def bind_call_def unit_call_def
      eval_nat_numeral euler_body_double_zero zero_plus_tenth tenth_plus_tenth two_tenths_plus_tenth one_plus_zero_step one_stays)

subsection \<open>Concrete runs\<close>

lemmas run_defs = for_range_def bind_call_def unit_call_def Let_def counted_def pure_call_def
  pure_accel_def counted_accel_def raising_def raising_accel_def growth_def zero_deriv_def
  const_accel_def

lemma euler_growth_run:
  "euler_method (counted growth) (1::real) 0 1 2 0 = Some (([0, 1, 2], [1, 2, 4]), 2)"
  by (simp add: euler_method_def euler_body_def run_defs eval_nat_numeral)

lemma heun_growth_run:
  "heun_method (counted growth) (1::real) 0 1 1 0 = Some (([0, 1], [1, 5/2]), 3)"
  by (simp add: heun_method_def heun_body_def run_defs eval_nat_numeral)

lemma verlet_run:
  "verlet_method_system (counted_accel (const_accel 2)) (1::real) 1 0 1 2 0
     = Some (([0, 1, 2], [1, 3, 7], [1, 3, 5]), 6)"
  by (simp add: verlet_method_system_def verlet_body_def run_defs eval_nat_numeral)

lemma euler_body_run:
  "euler_body (counted growth) 1 ([0], [1::real], 1, 0) 0 = Some (([0, 1], [1, 2], 2, 1), 1)"
  by (simp add: euler_body_def run_defs)

lemma verlet_body_run:
  "verlet_body (counted_accel (const_accel 2)) 1 ([0], [1::real], [1], 1, 1, 0) 0
     = Some (([0, 1], [1, 3], [1, 3], 3, 3, 1), 3)"
  by (simp add: verlet_body_def run_defs)

lemma euler_small_run:
  "euler_method (counted growth) (1::real) 0 (1/10) 1 0 = Some (([0, 1/10], [1, 11/10]), 1)"
  by (simp add: euler_method_def euler_body_def run_defs eval_nat_numeral)

lemma heun_two_steps_run:
  "heun_method (counted growth) (1::real) 0 1 2 0 = Some (([0, 1, 2], [1, 5/2, 25/4]), 6)"
  by (simp add: heun_method_def heun_body_def run_defs eval_nat_numeral)

lemma verlet_pure_small_run:
  "verlet_method_system (pure_accel (const_accel 2)) (1::real) 1 0 1 2 ()
     = Some (([0, 1, 2], [1, 3, 7], [1, 3, 5]), ())"
  by (simp add: verlet_method_system_def verlet_body_def run_defs eval_nat_numeral)

lemma verlet_zero_run:
  "verlet_method_system (pure_accel (const_accel 0)) (0::real) 1 0 1 1 ()
     = Some (([0, 1], [0, 1], [1, 1]), ())"
  by (simp add: verlet_method_system_def verlet_body_def run_defs eval_nat_numeral)

lemma midpoint_zero_run:
  "midpoint_method (pure_call zero_deriv) (5::real) 0 1 2 () = Some (([0, 1, 2], [5, 5, 5]), ())"
  by (simp add: midpoint_method_def midpoint_body_def run_defs eval_nat_numeral)

lemma verlet_zero_two_run:
  "verlet_method_system (pure_accel (const_accel 0)) (5::real) 1 0 1 2 ()
     = Some (([0, 1, 2], [5, 6, 7], [1, 1, 1]), ())"
  by (simp add: verlet_method_system_def verlet_body_def run_defs eval_nat_numeral)

lemma runge_kutta_growth_run:
  "runge_kutta_method (pure_call growth) (1::real) 0 (1/10) 1 s
     = Some (([0, 1/10], [1, 265241 / 240000]), s)"
  by (simp add: runge_kutta_method_def runge_kutta_body_def run_defs eval_nat_numeral)

lemma verlet_zero_rest_run:
  "verlet_method_system (pure_accel (const_accel 0)) (5::real) 0 0 1 2 ()
     = Some (([0, 1, 2], [5, 5, 5], [0, 0, 0]), ())"
  by (simp add: verlet_method_system_def verlet_body_def run_defs eval_nat_numeral)

lemma heun_logged_two_steps_run:
  "heun_method (logged (\<lambda>k. growth)) (1::real) 0 1 2 []
     = Some (([0, 1, 2], [1, 5/2, 25/4]),
             [(0, 1), (0, 1), (1, 2), (1, 5/2), (1, 5/2), (2, 5)])"
  by (simp add: heun_method_def heun_body_def logged_def run_defs eval_nat_numeral)

section \<open>The claims\<close>

text \<open>
  C1. For a step count \<open>n \<ge> 0\<close>, whenever one of the seven solvers returns, every
  returned list has length \<open>n + 1\<close>, the first time is \<open>t0\<close>, the first state is
  \<open>y0\<close> and, for Verlet, the first velocity is \<open>v0\<close>. A solver returns whenever the
  callable never raises.
\<close>

theorem solvers_start_at_initial_condition:
  assumes "0 \<le> n"
  shows "(solve m f y0 t0 h n s = Some ((ts, ys), s') \<longrightarrow>
            int (length ts) = n + 1 \<and> int (length ys) = n + 1 \<and> ts ! 0 = t0 \<and> ys ! 0 = y0)
       \<and> (verlet_method_system a y0 v0 t0 h n s = Some ((tsv, ysv, vsv), sv) \<longrightarrow>
            int (length tsv) = n + 1 \<and> int (length ysv) = n + 1 \<and> int (length vsv) = n + 1 \<and>
            tsv ! 0 = t0 \<and> ysv ! 0 = y0 \<and> vsv ! 0 = v0)
       \<and> ((\<forall>t y s. f t y s \<noteq> None) \<longrightarrow> solve m f y0 t0 h n s \<noteq> None)
       \<and> ((\<forall>t y v s. a t y v s \<noteq> None) \<longrightarrow> verlet_method_system a y0 v0 t0 h n s \<noteq> None)"
proof (intro conjI impI)
  assume "solve m f y0 t0 h n s = Some ((ts, ys), s')"
  then have "step_method (update_of m f h) y0 t0 h n s = Some ((ts, ys), s')"
    by (simp add: solve_step)
  from step_method_shape [OF this] assms
  show "int (length ts) = n + 1" "int (length ys) = n + 1" "ts ! 0 = t0" "ys ! 0 = y0"
    by simp_all
next
  assume "verlet_method_system a y0 v0 t0 h n s = Some ((tsv, ysv, vsv), sv)"
  then have "verlet_step_method (verlet_update a h) y0 v0 t0 h n s = Some ((tsv, ysv, vsv), sv)"
    by (simp add: verlet_step)
  from verlet_step_method_shape [OF this] assms
  show "int (length tsv) = n + 1" "int (length ysv) = n + 1" "int (length vsv) = n + 1"
    "tsv ! 0 = t0" "ysv ! 0 = y0" "vsv ! 0 = v0"
    by simp_all
next
  assume "\<forall>t y s. f t y s \<noteq> None"
  then show "solve m f y0 t0 h n s \<noteq> None"
    by (simp add: solve_returns)
next
  assume "\<forall>t y v s. a t y v s \<noteq> None"
  then show "verlet_method_system a y0 v0 t0 h n s \<noteq> None"
    by (simp add: verlet_method_system_returns)
qed

theorem solvers_start_at_initial_condition_witness:
  "(0::int) \<le> 2
   \<and> solve Euler (counted growth) (1::real) 0 1 2 0 = Some (([0, 1, 2], [1, 2, 4]), 2)
   \<and> int (length [0, 1, 2::real]) = 2 + 1 \<and> int (length [1, 2, 4::real]) = 2 + 1
   \<and> [0, 1, 2::real] ! 0 = 0 \<and> [1, 2, 4::real] ! 0 = 1
   \<and> verlet_method_system (counted_accel (const_accel 2)) (1::real) 1 0 1 2 0
         = Some (([0, 1, 2], [1, 3, 7], [1, 3, 5]), 6)
   \<and> int (length [1, 3, 5::real]) = 2 + 1 \<and> [1, 3, 5::real] ! 0 = 1
   \<and> (\<forall>t y s. counted growth t (y::real) s \<noteq> None)
   \<and> (\<forall>t y v s. counted_accel (const_accel 2) t (y::real) v s \<noteq> None)"
  using solvers_start_at_initial_condition [where n = 2 and m = Euler and f = "counted growth"
      and ?y0.0 = "1::real" and ?t0.0 = 0 and h = 1 and s = 0 and ts = "[0, 1, 2]"
      and ys = "[1, 2, 4]" and s' = 2 and a = "counted_accel (const_accel 2)" and ?v0.0 = 1
      and tsv = "[0, 1, 2]" and ysv = "[1, 3, 7]" and vsv = "[1, 3, 5]" and sv = 6]
  by (simp add: euler_growth_run verlet_run counted_def counted_accel_def)

text \<open>
  C2 (as the code has it). Every loop body, whatever the callable does, ends by setting
  \<open>t\<close> to \<open>t + h\<close> and appending that value to the times. So, in exact arithmetic,
  consecutive times of every returned run differ by \<open>h\<close>, and \<open>times[i] = t0 + i*h\<close>
  for every index \<open>i\<close> up to \<open>n\<close>. A solver returns whenever the callable never raises.
\<close>

theorem times_accumulate_step:
  "(loop_body m f h (tv, yv, y, t) s = Some ((tv', yv', y', t'), s') \<longrightarrow>
      t' = t + h \<and> tv' = tv @ [t + h])
   \<and> (verlet_body a h (tw, yw, vw, x, v, u) s = Some ((tw', yw', vw', x', v', u'), sw) \<longrightarrow>
      u' = u + h \<and> tw' = tw @ [u + h])
   \<and> (solve m f y0 t0 h n s = Some ((ts, ys), s1) \<longrightarrow>
      (\<forall>i. 1 \<le> i \<and> int i \<le> n \<longrightarrow> ts ! i - ts ! (i - 1) = h) \<and>
      (\<forall>i. int i \<le> n \<longrightarrow> ts ! i = t0 + real i * h))
   \<and> (verlet_method_system a y0 v0 t0 h n s = Some ((tsv, ysv, vsv), sv) \<longrightarrow>
      (\<forall>i. 1 \<le> i \<and> int i \<le> n \<longrightarrow> tsv ! i - tsv ! (i - 1) = h) \<and>
      (\<forall>i. int i \<le> n \<longrightarrow> tsv ! i = t0 + real i * h))
   \<and> ((\<forall>t y s. f t y s \<noteq> None) \<longrightarrow> solve m f y0 t0 h n s \<noteq> None)
   \<and> ((\<forall>t y v s. a t y v s \<noteq> None) \<longrightarrow> verlet_method_system a y0 v0 t0 h n s \<noteq> None)"
proof -
  have diff: "\<forall>i. 1 \<le> i \<and> int i \<le> n \<longrightarrow> xs ! i - xs ! (i - 1) = h"
    if "\<forall>i\<le>nat n. xs ! i = t0 + real i * h" for xs :: "real list"
  proof (intro allI impI)
    fix i :: nat
    assume i: "1 \<le> i \<and> int i \<le> n"
    then have "i \<le> nat n" "i - 1 \<le> nat n" by linarith+
    with that have "xs ! i = t0 + real i * h" "xs ! (i - 1) = t0 + real (i - 1) * h"
      by blast+
    moreover from i have "real (i - 1) = real i - 1" by (simp add: of_nat_diff)
    ultimately show "xs ! i - xs ! (i - 1) = h" by (simp add: algebra_simps)
  qed
  have closed: "\<forall>i. int i \<le> n \<longrightarrow> xs ! i = t0 + real i * h"
    if "\<forall>i\<le>nat n. xs ! i = t0 + real i * h" for xs :: "real list"
    using that by (auto simp: le_nat_iff)
  show ?thesis
  proof (intro conjI impI)
    assume "loop_body m f h (tv, yv, y, t) s = Some ((tv', yv', y', t'), s')"
    then show "t' = t + h" "tv' = tv @ [t + h]"
      by (simp_all add: loop_body_step step_body_Some)
  next
    assume "verlet_body a h (tw, yw, vw, x, v, u) s = Some ((tw', yw', vw', x', v', u'), sw)"
    then show "u' = u + h" "tw' = tw @ [u + h]"
      by (auto simp: verlet_body_step verlet_step_body_Some)
  next
    assume "solve m f y0 t0 h n s = Some ((ts, ys), s1)"
    then have "step_method (update_of m f h) y0 t0 h n s = Some ((ts, ys), s1)"
      by (simp add: solve_step)
    from step_method_shape [OF this] have c: "\<forall>i\<le>nat n. ts ! i = t0 + real i * h" by simp
    from diff [OF c] show "\<forall>i. 1 \<le> i \<and> int i \<le> n \<longrightarrow> ts ! i - ts ! (i - 1) = h" .
    from closed [OF c] show "\<forall>i. int i \<le> n \<longrightarrow> ts ! i = t0 + real i * h" .
  next
    assume "verlet_method_system a y0 v0 t0 h n s = Some ((tsv, ysv, vsv), sv)"
    then have "verlet_step_method (verlet_update a h) y0 v0 t0 h n s = Some ((tsv, ysv, vsv), sv)"
      by (simp add: verlet_step)
    from verlet_step_method_shape [OF this]
    have c: "\<forall>i\<le>nat n. tsv ! i = t0 + real i * h" by simp
    from diff [OF c] show "\<forall>i. 1 \<le> i \<and> int i \<le> n \<longrightarrow> tsv ! i - tsv ! (i - 1) = h" .
    from closed [OF c] show "\<forall>i. int i \<le> n \<longrightarrow> tsv ! i = t0 + real i * h" .
  next
    assume "\<forall>t y s. f t y s \<noteq> None"
    then show "solve m f y0 t0 h n s \<noteq> None"
      by (simp add: solve_returns)
  next
    assume "\<forall>t y v s. a t y v s \<noteq> None"
    then show "verlet_method_system a y0 v0 t0 h n s \<noteq> None"
      by (simp add: verlet_method_system_returns)
  qed
qed

theorem times_accumulate_step_witness:
  "loop_body Euler (counted growth) 1 ([0], [1::real], 1, 0) 0 = Some (([0, 1], [1, 2], 2, 1), 1)
   \<and> (1::real) = 0 + 1 \<and> [0, 1::real] = [0] @ [0 + 1]
   \<and> verlet_body (counted_accel (const_accel 2)) 1 ([0], [1::real], [1], 1, 1, 0) 0
         = Some (([0, 1], [1, 3], [1, 3], 3, 3, 1), 3)
   \<and> solve Euler (counted growth) (1::real) 0 1 2 0 = Some (([0, 1, 2], [1, 2, 4]), 2)
   \<and> (1::nat) \<le> 2 \<and> int 2 \<le> 2 \<and> [0, 1, 2::real] ! 2 - [0, 1, 2] ! (2 - 1) = 1
   \<and> [0, 1, 2::real] ! 2 = 0 + real 2 * 1
   \<and> verlet_method_system (counted_accel (const_accel 2)) (1::real) 1 0 1 2 0
         = Some (([0, 1, 2], [1, 3, 7], [1, 3, 5]), 6)
   \<and> [0, 1, 2::real] ! 2 - [0, 1, 2] ! (2 - 1) = 1
   \<and> (\<forall>t y s. counted growth t (y::real) s \<noteq> None)
   \<and> (\<forall>t y v s. counted_accel (const_accel 2) t (y::real) v s \<noteq> None)"
  using times_accumulate_step [where m = Euler and f = "counted growth" and h = 1
      and tv = "[0]" and yv = "[1::real]" and y = 1 and t = 0 and s = 0
      and tv' = "[0, 1]" and yv' = "[1, 2]" and y' = 2 and t' = 1 and s' = 1
      and a = "counted_accel (const_accel 2)" and tw = "[0]" and yw = "[1]" and vw = "[1]"
      and x = 1 and v = 1 and u = 0 and tw' = "[0, 1]" and yw' = "[1, 3]" and vw' = "[1, 3]"
      and x' = 3 and v' = 3 and u' = 1 and sw = 3
      and ?y0.0 = 1 and ?t0.0 = 0 and n = 2 and ts = "[0, 1, 2]" and ys = "[1, 2, 4]"
      and ?s1.0 = 2 and ?v0.0 = 1 and tsv = "[0, 1, 2]" and ysv = "[1, 3, 7]"
      and vsv = "[1, 3, 5]" and sv = 6]
  by (simp add: euler_body_run verlet_body_run euler_growth_run verlet_run counted_def
      counted_accel_def)

text \<open>
  In binary64 the difference of consecutive times need not be \<open>h\<close>. The Euler solver
  with \<open>t0 = 0.0\<close>, \<open>h = 0.1\<close> and \<open>n = 3\<close> returns the times
  \<open>[0.0, 0.1, 0.2, 0.30000000000000004]\<close>: the exact sum \<open>0.2 + 0.1\<close> lies half way
  between two floats and goes to the even one. Then \<open>times[3] - times[2]\<close> is
  \<open>3602879701896398 / 2\<^sup>5\<^sup>5\<close>, one unit above \<open>h = 3602879701896397 / 2\<^sup>5\<^sup>5\<close>, and
  \<open>times[3] - times[2] == h\<close> is false. (The states stay at \<open>1.0\<close>, which the
  additions return as \<open>4503599627370496 / 2\<^sup>5\<^sup>2\<close>.)
\<close>

theorem double_times_difference_counterexample:
  "euler_method_double zero_deriv_double (1, 0) (0, 0) tenth 3 ()
     = Some (([(0, 0), (3602879701896397, -55), (7205759403792794, -55), (5404319552844596, -54)],
              [(1, 0), (4503599627370496, -52), (4503599627370496, -52), (4503599627370496, -52)]), ())
   \<and> double_sub
         ([(0, 0), (3602879701896397, -55), (7205759403792794, -55), (5404319552844596, -54)] ! 3)
         ([(0, 0), (3602879701896397, -55), (7205759403792794, -55), (5404319552844596, -54)] ! 2)
       = (3602879701896398, -55)
   \<and> \<not> double_eq (3602879701896398, -55) tenth"
  by (simp add: euler_double_run third_time_minus_second difference_not_tenth)

text \<open>
  C3. The scalar Runge-Kutta routine, which multiplies each slope by \<open>h\<close> where it is
  used, and the system routine, which multiplies each slope by \<open>h\<close> as it is computed,
  are the same function in exact arithmetic: for every callable (pure or not, raising or
  not), every state type, initial value, start time, step size and step count they call
  \<open>f\<close> at the same points in the same order and return the same trajectory.
\<close>

theorem runge_kutta_scalar_eq_system:
  "runge_kutta_method f y0 t0 h n = runge_kutta_method_system f y0 t0 h n"
  by (simp add: runge_kutta_method_def runge_kutta_method_system_def runge_kutta_body_step
      runge_kutta_system_body_step runge_kutta_update_eq)

text \<open>
  C4. One Verlet step from \<open>(y, v, t)\<close> with a pure acceleration \<open>g\<close> computes
  \<open>y_next = y + h*v + 0.5*h\<^sup>2*g(t, y, v)\<close>, then \<open>a_next = g(t + h, y_next, v)\<close> at
  the new position with the old velocity, then
  \<open>v_next = v + 0.5*h*(g(t, y, v) + a_next)\<close>, advances \<open>t\<close> by \<open>h\<close> and appends
  \<open>t + h\<close>, \<open>y_next\<close> and \<open>v_next\<close>. Every run returns, and each of its steps relates
  entry \<open>i + 1\<close> of the three lists to entry \<open>i\<close> in this way.
\<close>

theorem verlet_step_rule:
  "verlet_body (pure_accel g) h (tv, yv, vv, y, v, t) s
     = (let y_next = y + h *\<^sub>R v + (0.5 * h\<^sup>2) *\<^sub>R g t y v;
            a_next = g (t + h) y_next v;
            v_next = v + (0.5 * h) *\<^sub>R (g t y v + a_next)
        in Some ((tv @ [t + h], yv @ [y_next], vv @ [v_next], y_next, v_next, t + h), s))
   \<and> (\<exists>ts ys vs. verlet_method_system (pure_accel g) y0 v0 t0 h n s = Some ((ts, ys, vs), s) \<and>
        (\<forall>i<nat n. ts ! Suc i = ts ! i + h \<and>
           ys ! Suc i = ys ! i + h *\<^sub>R vs ! i + (0.5 * h\<^sup>2) *\<^sub>R g (ts ! i) (ys ! i) (vs ! i) \<and>
           vs ! Suc i = vs ! i + (0.5 * h) *\<^sub>R
             (g (ts ! i) (ys ! i) (vs ! i) + g (ts ! i + h) (ys ! Suc i) (vs ! i))))"
proof (intro conjI)
  show "verlet_body (pure_accel g) h (tv, yv, vv, y, v, t) s
     = (let y_next = y + h *\<^sub>R v + (0.5 * h\<^sup>2) *\<^sub>R g t y v;
            a_next = g (t + h) y_next v;
            v_next = v + (0.5 * h) *\<^sub>R (g t y v + a_next)
        in Some ((tv @ [t + h], yv @ [y_next], vv @ [v_next], y_next, v_next, t + h), s))"
    by (simp add: verlet_body_def pure_accel_def bind_call_def unit_call_def Let_def)
  from verlet_pure_run [of g y0 v0 t0 h n s]
  show "\<exists>ts ys vs. verlet_method_system (pure_accel g) y0 v0 t0 h n s = Some ((ts, ys, vs), s) \<and>
        (\<forall>i<nat n. ts ! Suc i = ts ! i + h \<and>
           ys ! Suc i = ys ! i + h *\<^sub>R vs ! i + (0.5 * h\<^sup>2) *\<^sub>R g (ts ! i) (ys ! i) (vs ! i) \<and>
           vs ! Suc i = vs ! i + (0.5 * h) *\<^sub>R
             (g (ts ! i) (ys ! i) (vs ! i) + g (ts ! i + h) (ys ! Suc i) (vs ! i)))"
    by blast
qed

theorem verlet_step_rule_witness:
  "verlet_method_system (pure_accel (const_accel 2)) (1::real) 1 0 1 2 ()
     = Some (([0, 1, 2], [1, 3, 7], [1, 3, 5]), ())
   \<and> (1::nat) < nat 2
   \<and> [0, 1, 2::real] ! Suc 1 = [0, 1, 2] ! 1 + 1
   \<and> [1, 3, 7::real] ! Suc 1 = [1, 3, 7] ! 1 + 1 *\<^sub>R [1, 3, 5] ! 1
        + (0.5 * 1\<^sup>2) *\<^sub>R const_accel 2 ([0, 1, 2] ! 1) ([1, 3, 7::real] ! 1) ([1, 3, 5] ! 1)
   \<and> [1, 3, 5::real] ! Suc 1 = [1, 3, 5] ! 1 + (0.5 * 1) *\<^sub>R
        (const_accel 2 ([0, 1, 2] ! 1) ([1, 3, 7::real] ! 1) ([1, 3, 5] ! 1)
         + const_accel 2 ([0, 1, 2] ! 1 + 1) ([1, 3, 7::real] ! Suc 1) ([1, 3, 5] ! 1))"
  using verlet_step_rule [where g = "const_accel 2" and ?y0.0 = "1::real" and ?v0.0 = 1
      and ?t0.0 = 0 and h = 1 and n = 2 and s = "()"]
  by (simp add: verlet_pure_small_run const_accel_def)

text \<open>
  C5. With a constant acceleration \<open>g\<close> the Verlet positions are the exact kinematics
  \<open>y\<^sub>i = y0 + v0*(i*h) + 0.5*g*(i*h)\<^sup>2\<close> at every index \<open>i\<close> from 0 to \<open>n\<close>, for every
  \<open>y0\<close>, \<open>v0\<close>, \<open>t0\<close>, \<open>h\<close> and \<open>n\<close>.
\<close>

theorem verlet_constant_acceleration:
  "\<exists>ts ys vs. verlet_method_system (pure_accel (const_accel g)) y0 v0 t0 h n s
       = Some ((ts, ys, vs), s) \<and>
     (\<forall>i. int i \<le> n \<longrightarrow>
        ys ! i = y0 + (real i * h) *\<^sub>R v0 + ((real i * h)\<^sup>2) *\<^sub>R (0.5 *\<^sub>R g))"
proof -
  from verlet_pure_run [of "const_accel g" y0 v0 t0 h n s] obtain ts ys vs where
    run: "verlet_method_system (pure_accel (const_accel g)) y0 v0 t0 h n s = Some ((ts, ys, vs), s)"
    and init: "ys ! 0 = y0" "vs ! 0 = v0"
    and rec: "\<forall>i<nat n. ys ! Suc i = ys ! i + h *\<^sub>R vs ! i + (0.5 * h\<^sup>2) *\<^sub>R g \<and>
                vs ! Suc i = vs ! i + (0.5 * h) *\<^sub>R (g + g)"
    by (auto simp: const_accel_def)
  have "ys ! i = y0 + (real i * h) *\<^sub>R v0 + ((real i * h)\<^sup>2) *\<^sub>R (0.5 *\<^sub>R g)"
    if "int i \<le> n" for i
  proof -
    from that have "i \<le> nat n" by linarith
    from const_accel_closed_form [OF init rec this] show ?thesis by simp
  qed
  with run show ?thesis by blast
qed

theorem verlet_constant_acceleration_witness:
  "verlet_method_system (pure_accel (const_accel 2)) (1::real) 1 0 1 2 ()
     = Some (([0, 1, 2], [1, 3, 7], [1, 3, 5]), ())
   \<and> int 2 \<le> 2
   \<and> [1, 3, 7::real] ! 2 = 1 + (real 2 * 1) *\<^sub>R 1 + ((real 2 * 1)\<^sup>2) *\<^sub>R (0.5 *\<^sub>R 2)"
  using verlet_constant_acceleration [where g = "2::real" and ?y0.0 = 1 and ?v0.0 = 1
      and ?t0.0 = 0 and h = 1 and n = 2 and s = "()"]
  by (simp add: verlet_pure_small_run)

text \<open>
  C6 (as the code has it). With the zero derivative each of the six first-order solvers
  returns \<open>states[i] = y0\<close> for every \<open>i\<close> from 0 to \<open>n\<close>. With the zero acceleration
  the Verlet solver does so when \<open>v0 = 0\<close> or \<open>h = 0\<close>, and not for every initial
  velocity: it keeps the velocity, \<open>velocities[i] = v0\<close>, and in exact arithmetic it
  moves the position along it, \<open>states[i] = y0 + (i*h)*v0\<close>.
\<close>

theorem zero_derivative_keeps_state:
  "(\<exists>ts ys. solve m (pure_call zero_deriv) y0 t0 h n s = Some ((ts, ys), s) \<and>
      (\<forall>i. int i \<le> n \<longrightarrow> ys ! i = y0))
   \<and> (\<exists>ts ys vs. verlet_method_system (pure_accel (const_accel 0)) y0 v0 t0 h n s
         = Some ((ts, ys, vs), s) \<and>
      (\<forall>i. int i \<le> n \<longrightarrow> ys ! i = y0 + (real i * h) *\<^sub>R v0 \<and> vs ! i = v0) \<and>
      (v0 = 0 \<or> h = 0 \<longrightarrow> (\<forall>i. int i \<le> n \<longrightarrow> ys ! i = y0)))"
proof (intro conjI)
  from step_method_pure_run [of "update_of m (pure_call zero_deriv) h" "\<lambda>t y. y" y0 t0 h n s]
  obtain ts ys where run: "solve m (pure_call zero_deriv) y0 t0 h n s = Some ((ts, ys), s)"
    and init: "ys ! 0 = y0" and rec: "\<forall>i<nat n. ys ! Suc i = ys ! i"
    by (auto simp: solve_step update_of_zero)
  have "ys ! i = y0" if "i \<le> nat n" for i
    using that by (induction i) (simp_all add: init rec)
  then have "\<forall>i. int i \<le> n \<longrightarrow> ys ! i = y0" by (simp add: le_nat_iff)
  with run show "\<exists>ts ys. solve m (pure_call zero_deriv) y0 t0 h n s = Some ((ts, ys), s) \<and>
      (\<forall>i. int i \<le> n \<longrightarrow> ys ! i = y0)" by blast
next
  from verlet_pure_run [of "const_accel 0" y0 v0 t0 h n s] obtain ts ys vs where
    run: "verlet_method_system (pure_accel (const_accel 0)) y0 v0 t0 h n s = Some ((ts, ys, vs), s)"
    and init: "ys ! 0 = y0" "vs ! 0 = v0"
    and rec: "\<forall>i<nat n. ys ! Suc i = ys ! i + h *\<^sub>R vs ! i + (0.5 * h\<^sup>2) *\<^sub>R 0 \<and>
                vs ! Suc i = vs ! i + (0.5 * h) *\<^sub>R (0 + 0)"
    by (auto simp: const_accel_def)
  have "ys ! i = y0 + (real i * h) *\<^sub>R v0 \<and> vs ! i = v0" if "int i \<le> n" for i
  proof -
    from that have "i \<le> nat n" by linarith
    from const_accel_closed_form [OF init rec this] show ?thesis by simp
  qed
  then have closed: "\<forall>i. int i \<le> n \<longrightarrow> ys ! i = y0 + (real i * h) *\<^sub>R v0 \<and> vs ! i = v0"
    by blast
  then have "v0 = 0 \<or> h = 0 \<longrightarrow> (\<forall>i. int i \<le> n \<longrightarrow> ys ! i = y0)"
    by auto
  with run closed show "\<exists>ts ys vs. verlet_method_system (pure_accel (const_accel 0)) y0 v0 t0 h n s
         = Some ((ts, ys, vs), s) \<and>
      (\<forall>i. int i \<le> n \<longrightarrow> ys ! i = y0 + (real i * h) *\<^sub>R v0 \<and> vs ! i = v0) \<and>
      (v0 = 0 \<or> h = 0 \<longrightarrow> (\<forall>i. int i \<le> n \<longrightarrow> ys ! i = y0))" by blast
qed

theorem zero_derivative_keeps_state_witness:
  "solve Midpoint (pure_call zero_deriv) (5::real) 0 1 2 () = Some (([0, 1, 2], [5, 5, 5]), ())
   \<and> int 2 \<le> 2 \<and> [5, 5, 5::real] ! 2 = 5
   \<and> verlet_method_system (pure_accel (const_accel 0)) (5::real) 1 0 1 2 ()
       = Some (([0, 1, 2], [5, 6, 7], [1, 1, 1]), ())
   \<and> [5, 6, 7::real] ! 2 = 5 + (real 2 * 1) *\<^sub>R 1 \<and> [1, 1, 1::real] ! 2 = 1
   \<and> ((0::real) = 0 \<or> (1::real) = 0)
   \<and> verlet_method_system (pure_accel (const_accel 0)) (5::real) 0 0 1 2 ()
       = Some (([0, 1, 2], [5, 5, 5], [0, 0, 0]), ())"
  using zero_derivative_keeps_state [where m = Midpoint and ?y0.0 = "5::real" and ?t0.0 = 0
      and h = 1 and n = 2 and s = "()" and ?v0.0 = 1]
    zero_derivative_keeps_state [where m = Midpoint and ?y0.0 = "5::real" and ?t0.0 = 0
      and h = 1 and n = 2 and s = "()" and ?v0.0 = 0]
  by (simp add: midpoint_zero_run verlet_zero_two_run verlet_zero_rest_run)

text \<open>
  Verlet with zero acceleration from \<open>y0 = 0\<close> with \<open>v0 = 1\<close> and \<open>h = 1\<close>: after one
  step the position is 1, not \<open>y0\<close>.
\<close>

theorem verlet_zero_acceleration_moves:
  "verlet_method_system (pure_accel (const_accel 0)) (0::real) 1 0 1 1 ()
     = Some (([0, 1], [0, 1], [1, 1]), ())
   \<and> [0, 1::real] ! 1 \<noteq> 0"
  by (simp add: verlet_zero_run)

text \<open>
  C7. One Euler step calls \<open>f\<close> once, at \<open>(t, y)\<close>, and moves the state to
  \<open>y + h * f(t, y)\<close>. With a callable that counts its calls, a run of \<open>n\<close> steps
  makes \<open>n\<close> calls and every state follows from the one before by that rule. For
  \<open>f(t, y) = y\<close>, \<open>y0 = 1\<close>, \<open>t0 = 0\<close>, \<open>h = 0.1\<close> and \<open>n = 1\<close> the states are
  \<open>[1, 1.1]\<close>.
\<close>

theorem euler_step_rule:
  "euler_body (counted g) h (tv, yv, y, t) c
     = Some ((tv @ [t + h], yv @ [y + h *\<^sub>R g t y], y + h *\<^sub>R g t y, t + h), Suc c)
   \<and> (\<exists>ts ys. euler_method (counted g) y0 t0 h n c = Some ((ts, ys), c + nat n) \<and>
        (\<forall>i<nat n. ys ! Suc i = ys ! i + h *\<^sub>R g (ts ! i) (ys ! i)))
   \<and> euler_method (counted growth) (1::real) 0 0.1 1 0 = Some (([0, 0.1], [1, 1.1]), 1)"
proof (intro conjI)
  show "euler_body (counted g) h (tv, yv, y, t) c
     = Some ((tv @ [t + h], yv @ [y + h *\<^sub>R g t y], y + h *\<^sub>R g t y, t + h), Suc c)"
    by (simp add: euler_body_def counted_def bind_call_def unit_call_def Let_def)
  from step_method_counted_run [of "euler_update (counted g) h" "\<lambda>t y. y + h *\<^sub>R g t y" 1
      y0 t0 h n c]
  show "\<exists>ts ys. euler_method (counted g) y0 t0 h n c = Some ((ts, ys), c + nat n) \<and>
        (\<forall>i<nat n. ys ! Suc i = ys ! i + h *\<^sub>R g (ts ! i) (ys ! i))"
    using solve_step [of Euler "counted g" y0 t0 h n] by (simp add: euler_update_counted)
  show "euler_method (counted growth) (1::real) 0 0.1 1 0 = Some (([0, 0.1], [1, 1.1]), 1)"
    using euler_small_run by simp
qed

theorem euler_step_rule_witness:
  "euler_method (counted growth) (1::real) 0 1 2 0 = Some (([0, 1, 2], [1, 2, 4]), 0 + nat 2)
   \<and> (1::nat) < nat 2
   \<and> [1, 2, 4::real] ! Suc 1 = [1, 2, 4] ! 1 + 1 *\<^sub>R growth ([0, 1, 2] ! 1) ([1, 2, 4::real] ! 1)"
  using euler_step_rule [where g = growth and ?y0.0 = "1::real" and ?t0.0 = 0 and h = 1
      and n = 2 and c = 0]
  by (simp add: euler_growth_run growth_def)

text \<open>
  C8 (as the code has it). One Heun step computes the predictor
  \<open>yp = y + h * f(t, y)\<close> and moves the state to
  \<open>y + (h / 2) * (f(t, y) + f(t + h, yp))\<close>. It calls \<open>f\<close> three times, not twice, in
  this order: \<open>f(t, y)\<close>, whose value makes the predictor; \<open>f(t, y)\<close> again, whose
  value enters the corrector; then \<open>f(t + h, yp)\<close>. A callable that counts its calls
  shows \<open>3 * n\<close> calls for a run of \<open>n\<close> steps, and a callable that logs them shows
  these three points, in this order, for every step.
\<close>

theorem heun_step_rule:
  "heun_body (counted g) h (tv, yv, y, t) c
     = (let y_predictor = y + h *\<^sub>R g t y;
            y_next = y + (h / 2) *\<^sub>R (g t y + g (t + h) y_predictor)
        in Some ((tv @ [t + h], yv @ [y_next], y_next, t + h), c + 3))
   \<and> (\<exists>ts ys. heun_method (counted g) y0 t0 h n c = Some ((ts, ys), c + 3 * nat n) \<and>
        (\<forall>i<nat n. ys ! Suc i
           = ys ! i + (h / 2) *\<^sub>R (g (ts ! i) (ys ! i)
               + g (ts ! i + h) (ys ! i + h *\<^sub>R g (ts ! i) (ys ! i)))))
   \<and> heun_body (logged gk) h (tv, yv, y, t) calls
     = (let k = length calls;
            y_predictor = y + h *\<^sub>R gk k t y;
            y_next = y + (h / 2) *\<^sub>R (gk (k + 1) t y + gk (k + 2) (t + h) y_predictor)
        in Some ((tv @ [t + h], yv @ [y_next], y_next, t + h),
                 calls @ [(t, y), (t, y), (t + h, y_predictor)]))
   \<and> (\<exists>ts ys. heun_method (logged (\<lambda>k. g)) y0 t0 h n calls
          = Some ((ts, ys), calls @ concat (map (\<lambda>i.
              [(ts ! i, ys ! i), (ts ! i, ys ! i),
               (ts ! i + h, ys ! i + h *\<^sub>R g (ts ! i) (ys ! i))]) [0..<nat n])) \<and>
        (\<forall>i<nat n. ys ! Suc i
           = ys ! i + (h / 2) *\<^sub>R (g (ts ! i) (ys ! i)
               + g (ts ! i + h) (ys ! i + h *\<^sub>R g (ts ! i) (ys ! i)))))"
proof (intro conjI)
  show "heun_body (counted g) h (tv, yv, y, t) c
     = (let y_predictor = y + h *\<^sub>R g t y;
            y_next = y + (h / 2) *\<^sub>R (g t y + g (t + h) y_predictor)
        in Some ((tv @ [t + h], yv @ [y_next], y_next, t + h), c + 3))"
    by (simp add: heun_body_def counted_def bind_call_def unit_call_def Let_def)
  from step_method_counted_run [of "heun_update (counted g) h"
      "\<lambda>t y. y + (h / 2) *\<^sub>R (g t y + g (t + h) (y + h *\<^sub>R g t y))" 3 y0 t0 h n c]
  show "\<exists>ts ys. heun_method (counted g) y0 t0 h n c = Some ((ts, ys), c + 3 * nat n) \<and>
        (\<forall>i<nat n. ys ! Suc i
           = ys ! i + (h / 2) *\<^sub>R (g (ts ! i) (ys ! i)
               + g (ts ! i + h) (ys ! i + h *\<^sub>R g (ts ! i) (ys ! i))))"
    using solve_step [of Heun "counted g" y0 t0 h n]
    by (simp add: heun_update_counted mult.commute)
  show "heun_body (logged gk) h (tv, yv, y, t) calls
     = (let k = length calls;
            y_predictor = y + h *\<^sub>R gk k t y;
            y_next = y + (h / 2) *\<^sub>R (gk (k + 1) t y + gk (k + 2) (t + h) y_predictor)
        in Some ((tv @ [t + h], yv @ [y_next], y_next, t + h),
                 calls @ [(t, y), (t, y), (t + h, y_predictor)]))"
    by (simp add: heun_body_def logged_def bind_call_def unit_call_def Let_def)
  show "\<exists>ts ys. heun_method (logged (\<lambda>k. g)) y0 t0 h n calls
          = Some ((ts, ys), calls @ concat (map (\<lambda>i.
              [(ts ! i, ys ! i), (ts ! i, ys ! i),
               (ts ! i + h, ys ! i + h *\<^sub>R g (ts ! i) (ys ! i))]) [0..<nat n])) \<and>
        (\<forall>i<nat n. ys ! Suc i
           = ys ! i + (h / 2) *\<^sub>R (g (ts ! i) (ys ! i)
               + g (ts ! i + h) (ys ! i + h *\<^sub>R g (ts ! i) (ys ! i))))"
    by (rule heun_logged_run)
qed

theorem heun_step_rule_witness:
  "heun_method (counted growth) (1::real) 0 1 2 0 = Some (([0, 1, 2], [1, 5/2, 25/4]), 0 + 3 * nat 2)
   \<and> (1::nat) < nat 2
   \<and> [1, 5/2, 25/4::real] ! Suc 1
       = [1, 5/2, 25/4] ! 1 + (1 / 2) *\<^sub>R (growth ([0, 1, 2] ! 1) ([1, 5/2, 25/4::real] ! 1)
           + growth ([0, 1, 2] ! 1 + 1) ([1, 5/2, 25/4] ! 1
               + 1 *\<^sub>R growth ([0, 1, 2] ! 1) ([1, 5/2, 25/4::real] ! 1)))
   \<and> heun_method (logged (\<lambda>k. growth)) (1::real) 0 1 2 []
       = Some (([0, 1, 2], [1, 5/2, 25/4]),
               [(0, 1), (0, 1), (1, 2), (1, 5/2), (1, 5/2), (2, 5)])"
  using heun_step_rule [where g = growth and ?y0.0 = "1::real" and ?t0.0 = 0 and h = 1
      and n = 2 and c = 0 and calls = "[]"]
  by (simp add: heun_two_steps_run heun_logged_two_steps_run growth_def)

text \<open>
  One Heun step on \<open>f(t, y) = y\<close> from \<open>y0 = 1\<close> with \<open>h = 1\<close> leaves the call
  counter at 3, where two evaluations per step would leave it at 2.
\<close>

theorem heun_calls_counterexample:
  "heun_method (counted growth) (1::real) 0 1 1 0 = Some (([0, 1], [1, 5/2]), 3)
   \<and> (3::nat) \<noteq> 2 * nat 1"
  by (simp add: heun_growth_run)

text \<open>
  C9. For \<open>f(t, y) = y\<close>, \<open>y0 = 1\<close>, \<open>t0 = 0\<close>, \<open>h = 0.1\<close> and \<open>n = 1\<close> the scalar
  Runge-Kutta routine returns \<open>states[1] = 265241/240000\<close>, which is within
  \<open>1/10^6\<close> of \<open>exp 0.1\<close> (about \<open>8.5/10^8\<close> below it).
\<close>

theorem runge_kutta_growth_accuracy:
  "\<exists>ts ys. runge_kutta_method (pure_call growth) (1::real) 0 0.1 1 s = Some ((ts, ys), s) \<and>
     ys ! 1 = 265241 / 240000 \<and> \<bar>ys ! 1 - exp 0.1\<bar> \<le> 1 / 10^6"
proof -
  have "\<bar>265241 / 240000 - exp (1/10 :: real)\<bar> \<le> 1 / 10^6"
    using exp_tenth_bounds by (simp add: abs_le_iff)
  then show ?thesis
    using runge_kutta_growth_run [of s] by simp
qed

text \<open>
  C10. For a strictly negative step count the loop body never runs: every solver returns
  the one-element lists holding the initial condition and leaves the caller's state as it
  was, whatever the callable is (it is never called, so it cannot raise).
\<close>

theorem negative_step_count:
  assumes "n < 0"
  shows "solve m f y0 t0 h n s = Some (([t0], [y0]), s)
       \<and> verlet_method_system a y0 v0 t0 h n s = Some (([t0], [y0], [v0]), s)"
  using assms
  by (simp add: solve_step verlet_step step_method_no_steps verlet_step_method_no_steps
      unit_call_def)

theorem negative_step_count_witness:
  "(-1::int) < 0
   \<and> solve Heun raising (1::real) 0 1 (-1) () = Some (([0], [1]), ())
   \<and> verlet_method_system raising_accel (1::real) 2 0 1 (-1) () = Some (([0], [1], [2]), ())"
  using negative_step_count [where n = "-1" and m = Heun and f = raising and ?y0.0 = "1::real"
      and ?t0.0 = 0 and h = 1 and s = "()" and a = raising_accel and ?v0.0 = 2]
  by simp

end
